theory Spec2Isabelle
  imports Main
begin

section \<open>Go library functions used by kui.go\<close>

text \<open>
  The launcher in \<^verbatim>\<open>src/kui/kui.go\<close> is a Go program. Strings are byte strings
  (\<open>string\<close>), Go's \<open>int\<close> is taken at 64 bits (the distributions fetched are all x64
  builds). The library functions below follow the Go standard library's own sources.
\<close>

type_synonym path = string
type_synonym content = string

datatype error =
    ErrNotExist
  | ErrSyntax
  | ErrRange
  | ErrOther string

text \<open>A run of Go code either returns normally or stops with a run-time panic.\<close>

datatype panic = IndexOutOfRange nat nat

subsection \<open>strings\<close>

text \<open>\<^verbatim>\<open>strings.HasSuffix(s, suffix)\<close> is
  \<^verbatim>\<open>len(s) >= len(suffix) && s[len(s)-len(suffix):] == suffix\<close>, and likewise
  \<^verbatim>\<open>strings.HasPrefix\<close>.\<close>

definition HasSuffix :: "string \<Rightarrow> string \<Rightarrow> bool" where
  "HasSuffix s suf = (length suf \<le> length s \<and> drop (length s - length suf) s = suf)"

definition HasPrefix :: "string \<Rightarrow> string \<Rightarrow> bool" where
  "HasPrefix s pre = (length pre \<le> length s \<and> take (length pre) s = pre)"

text \<open>Cutting a string at every byte that satisfies \<open>is_sep\<close>: the pieces between
  the separators, always at least one piece.\<close>

fun pieces :: "(char \<Rightarrow> bool) \<Rightarrow> string \<Rightarrow> string list" where
  "pieces is_sep [] = [[]]"
| "pieces is_sep (c # cs) =
     (if is_sep c then [] # pieces is_sep cs
      else (case pieces is_sep cs of
              [] \<Rightarrow> [[c]]
            | piece # rest \<Rightarrow> (c # piece) # rest))"

text \<open>\<^verbatim>\<open>strings.Split(s, sep)\<close> for a one-byte separator.\<close>

definition Split :: "string \<Rightarrow> char \<Rightarrow> string list" where
  "Split s sep = pieces (\<lambda>c. c = sep) s"

text \<open>\<^verbatim>\<open>strings.Join(elems, sep)\<close> for a one-byte separator.\<close>

fun Join :: "string list \<Rightarrow> char \<Rightarrow> string" where
  "Join [] sep = []"
| "Join [e] sep = e"
| "Join (e # e' # es) sep = e @ sep # Join (e' # es) sep"

text \<open>Indexing a slice panics out of range.\<close>

definition index :: "'a list \<Rightarrow> nat \<Rightarrow> panic + 'a" where
  "index xs i = (if i < length xs then Inr (xs ! i) else Inl (IndexOutOfRange i (length xs)))"

subsection \<open>strconv and fmt\<close>

definition is_digit :: "char \<Rightarrow> bool" where
  "is_digit c = ((48::nat) \<le> of_char c \<and> (of_char c :: nat) \<le> 57)"

definition digit_val :: "char \<Rightarrow> nat" where
  "digit_val c = of_char c - 48"

definition digits_val :: "string \<Rightarrow> nat" where
  "digits_val ds = foldl (\<lambda>n c. n * 10 + digit_val c) 0 ds"

definition maxInt :: int where
  "maxInt = 2 ^ 63 - 1"

definition minInt :: int where
  "minInt = - (2 ^ 63)"

definition maxUint64 :: nat where
  "maxUint64 = 2 ^ 64 - 1"

text \<open>
  \<^verbatim>\<open>strconv.ParseUint(s, 10, 0)\<close>. The loop reads the bytes from the left, with the
  value so far in \<open>n\<close>. A byte that is no digit ends it with a syntax error and the
  value 0. A digit with which the value would pass \<^verbatim>\<open>maxUint64\<close> ends it with a range
  error and the value \<^verbatim>\<open>maxUint64\<close>, whatever stands behind that digit: the test
  \<^verbatim>\<open>n >= cutoff\<close> (with \<^verbatim>\<open>cutoff = maxUint64/10 + 1\<close>) catches the overflow of
  \<^verbatim>\<open>n*10\<close>, the test \<^verbatim>\<open>n1 < n || n1 > maxVal\<close> the overflow of adding the digit.
\<close>

fun ParseUint_digits :: "nat \<Rightarrow> string \<Rightarrow> nat \<times> error option" where
  "ParseUint_digits n [] = (n, None)"
| "ParseUint_digits n (c # s) =
     (if \<not> is_digit c then (0, Some ErrSyntax)
      else if maxUint64 div 10 + 1 \<le> n then (maxUint64, Some ErrRange)
      else if maxUint64 < n * 10 + digit_val c then (maxUint64, Some ErrRange)
      else ParseUint_digits (n * 10 + digit_val c) s)"

definition ParseUint :: "string \<Rightarrow> nat \<times> error option" where
  "ParseUint s = (if s = [] then (0, Some ErrSyntax) else ParseUint_digits 0 s)"

text \<open>
  \<^verbatim>\<open>strconv.ParseInt(s, 10, 0)\<close>: the empty string is a syntax error; one leading sign
  is taken off and the rest goes to \<^verbatim>\<open>ParseUint\<close>. An error of \<^verbatim>\<open>ParseUint\<close> other
  than a range error is returned with the value 0. Then the value is checked against the
  range of \<open>int\<close>: from \<open>2^63\<close> on without a sign, and above \<open>2^63\<close> with a minus sign,
  the result is the nearest value of the range and a range error.
\<close>

definition ParseInt :: "string \<Rightarrow> int \<times> error option" where
  "ParseInt s =
     (if s = [] then (0, Some ErrSyntax)
      else let neg = (hd s = CHR ''-'');
               s1 = (if hd s = CHR ''+'' \<or> hd s = CHR ''-'' then tl s else s)
           in case ParseUint s1 of
                (un, err) \<Rightarrow>
                  if err \<noteq> None \<and> err \<noteq> Some ErrRange then (0, err)
                  else if \<not> neg \<and> 2 ^ 63 \<le> un then (2 ^ 63 - 1, Some ErrRange)
                  else if neg \<and> 2 ^ 63 < un then (- (2 ^ 63), Some ErrRange)
                  else (if neg then - int un else int un, None))"

text \<open>
  \<^verbatim>\<open>strconv.Atoi\<close>. A string of 1 to 18 bytes takes the fast path: one leading sign
  is taken off (nothing behind it is a syntax error), the loop adds up the digits and
  ends with a syntax error and the value 0 at a byte that is no digit; the value cannot
  leave the range. Every other string goes to \<^verbatim>\<open>ParseInt(s, 10, 0)\<close>.
\<close>

fun Atoi_digits :: "nat \<Rightarrow> string \<Rightarrow> nat option" where
  "Atoi_digits n [] = Some n"
| "Atoi_digits n (ch # s) =
     (if is_digit ch then Atoi_digits (n * 10 + digit_val ch) s else None)"

definition Atoi :: "string \<Rightarrow> int \<times> error option" where
  "Atoi s =
     (if 0 < length s \<and> length s < 19 then
        (let s1 = (if hd s = CHR ''-'' \<or> hd s = CHR ''+'' then tl s else s)
         in if s1 = [] then (0, Some ErrSyntax)
            else (case Atoi_digits 0 s1 of
                    None \<Rightarrow> (0, Some ErrSyntax)
                  | Some n \<Rightarrow> (if hd s = CHR ''-'' then - int n else int n, None)))
      else ParseInt s)"

text \<open>\<^verbatim>\<open>fmt.Sprintf("%d", n)\<close>.\<close>

definition digit_char :: "nat \<Rightarrow> char" where
  "digit_char d = ''0123456789'' ! d"

fun string_of_nat :: "nat \<Rightarrow> string" where
  "string_of_nat n =
     (if n < 10 then [digit_char n] else string_of_nat (n div 10) @ [digit_char (n mod 10)])"

declare string_of_nat.simps [simp del]

definition string_of_int :: "int \<Rightarrow> string" where
  "string_of_int i = (if i < 0 then CHR ''-'' # string_of_nat (nat (- i)) else string_of_nat (nat i))"

section \<open>Versions\<close>

text \<open>
  \<^verbatim>\<open>toInt\<close> (lines 389-392) drops the error of \<^verbatim>\<open>strconv.Atoi\<close>.
\<close>

definition toInt :: "string \<Rightarrow> int" where
  "toInt inp = fst (Atoi inp)"

text \<open>\<^verbatim>\<open>VersionType\<close> has the two implementations \<^verbatim>\<open>DevVer\<close> and \<^verbatim>\<open>SemVer\<close>
  (lines 394-404).\<close>

datatype VersionType =
    DevVer
  | SemVer (Major: int) (Minor: int) (Build: int)

text \<open>
  \<^verbatim>\<open>PLUGIN_VERSION\<close> (line 34) is a constant that the build may substitute, so the
  functions that read it take it as the argument \<open>pv\<close>. The source as it stands has
  \<^verbatim>\<open>dev\<close>.
\<close>

definition PLUGIN_VERSION :: string where
  "PLUGIN_VERSION = ''dev''"

text \<open>The two \<^verbatim>\<open>String()\<close> methods (lines 406-412).\<close>

fun String :: "string \<Rightarrow> VersionType \<Rightarrow> string" where
  "String pv DevVer = pv"
| "String pv (SemVer major minor build) =
     string_of_int major @ ''.'' @ string_of_int minor @ ''.'' @ string_of_int build"

text \<open>
  \<^verbatim>\<open>GetVersion\<close> (lines 414-425). The three index expressions \<^verbatim>\<open>s[0]\<close>,
  \<^verbatim>\<open>s[1]\<close>, \<^verbatim>\<open>s[2]\<close> are evaluated in this order and each panics when the split
  has too few pieces; there is no other failure.
\<close>

definition GetVersion :: "string \<Rightarrow> panic + VersionType" where
  "GetVersion pv =
     (if pv = ''dev'' then Inr DevVer
      else let s = Split pv CHR ''.'' in
        (case index s 0 of Inl p \<Rightarrow> Inl p | Inr s0 \<Rightarrow>
        (case index s 1 of Inl p \<Rightarrow> Inl p | Inr s1 \<Rightarrow>
        (case index s 2 of Inl p \<Rightarrow> Inl p | Inr s2 \<Rightarrow>
          Inr (SemVer (toInt s0) (toInt s1) (toInt s2))))))"

section \<open>Paths\<close>

text \<open>
  \<^verbatim>\<open>path\<close> always works with \<^verbatim>\<open>/\<close>; \<^verbatim>\<open>path/filepath\<close> works with the
  separator of the operating system: the backslash on windows (where \<^verbatim>\<open>/\<close> is
  accepted as well), \<^verbatim>\<open>/\<close> elsewhere. Volume names of windows paths are treated as an
  ordinary first element.
\<close>

definition Separator :: "string \<Rightarrow> char" where
  "Separator goos = (if goos = ''windows'' then CHR 0x5C else CHR ''/'')"

definition IsPathSeparator :: "string \<Rightarrow> char \<Rightarrow> bool" where
  "IsPathSeparator goos c = (c = CHR ''/'' \<or> (goos = ''windows'' \<and> c = CHR 0x5C))"

text \<open>
  \<^verbatim>\<open>Clean\<close> walks over the elements of the path: empty elements and \<^verbatim>\<open>.\<close> are
  dropped, \<^verbatim>\<open>..\<close> removes the element before it (at the start of a rooted path it is
  dropped, at the start of a relative path it is kept). \<open>out\<close> holds the elements kept
  so far.
\<close>

definition clean_step :: "bool \<Rightarrow> string list \<Rightarrow> string \<Rightarrow> string list" where
  "clean_step rooted out e =
     (if e = [] \<or> e = ''.'' then out
      else if e = ''..'' then
        (if out \<noteq> [] \<and> last out \<noteq> ''..'' then butlast out
         else if rooted then out
         else out @ [e])
      else out @ [e])"

definition Clean :: "string \<Rightarrow> path \<Rightarrow> path" where
  "Clean goos p =
     (if p = [] then ''.''
      else let rooted = IsPathSeparator goos (hd p);
               out = foldl (clean_step rooted) [] (pieces (IsPathSeparator goos) p);
               r = (if rooted then [Separator goos] else []) @ Join out (Separator goos)
           in if r = [] then ''.'' else r)"

text \<open>\<^verbatim>\<open>filepath.Join\<close>: leading empty elements are ignored, the rest is joined with the
  separator and cleaned; no non-empty element gives the empty string.\<close>

definition filepath_Join :: "string \<Rightarrow> string list \<Rightarrow> path" where
  "filepath_Join goos elem =
     (let es = dropWhile (\<lambda>e. e = []) elem
      in if es = [] then [] else Clean goos (Join es (Separator goos)))"

text \<open>\<^verbatim>\<open>Base\<close>: the last element of the path, after trailing separators are removed;
  \<^verbatim>\<open>.\<close> for the empty path and a single separator for a path of separators only.\<close>

definition base_of :: "(char \<Rightarrow> bool) \<Rightarrow> char \<Rightarrow> path \<Rightarrow> string" where
  "base_of is_sep sep p =
     (if p = [] then ''.''
      else let q = rev (dropWhile is_sep (rev p));
               b = rev (takeWhile (\<lambda>c. \<not> is_sep c) (rev q))
           in if b = [] then [sep] else b)"

definition path_Base :: "path \<Rightarrow> string" where
  "path_Base p = base_of (\<lambda>c. c = CHR ''/'') CHR ''/'' p"

definition filepath_Base :: "string \<Rightarrow> path \<Rightarrow> string" where
  "filepath_Base goos p = base_of (IsPathSeparator goos) (Separator goos) p"

section \<open>The process and its child command\<close>

text \<open>
  What the launcher reads from its own process: \<^verbatim>\<open>runtime.GOOS\<close>, the environment
  (\<^verbatim>\<open>os.Environ\<close>, \<^verbatim>\<open>os.LookupEnv\<close>), \<^verbatim>\<open>os.UserHomeDir()\<close>,
  \<^verbatim>\<open>os.Executable()\<close>, and the \<^verbatim>\<open>PLUGIN_VERSION\<close> it was built with.
\<close>

record proc =
  GOOS :: string
  Env_vars :: "(string \<times> string) list"
  UserHomeDir :: "error + path"
  Executable :: "error + path"
  Plugin_version :: string

definition LookupEnv :: "proc \<Rightarrow> string \<Rightarrow> string option" where
  "LookupEnv p key = map_of (Env_vars p) key"

definition Environ :: "proc \<Rightarrow> string list" where
  "Environ p = map (\<lambda>(k, v). k @ ''='' @ v) (Env_vars p)"

text \<open>The fields of \<^verbatim>\<open>exec.Cmd\<close> that the launcher sets. \<^verbatim>\<open>exec.Command(name)\<close>
  with a name that has a directory part does no lookup.\<close>

record Cmd =
  Path :: path
  Args :: "string list"
  Env :: "string list"

definition exec_Command :: "path \<Rightarrow> Cmd" where
  "exec_Command name = \<lparr>Path = name, Args = [name], Env = []\<rparr>"

section \<open>Locating the distribution\<close>

text \<open>\<^verbatim>\<open>GetDistOSSuffix\<close> (lines 194-203), a switch on \<^verbatim>\<open>runtime.GOOS\<close>.\<close>

definition GetDistOSSuffix :: "string \<Rightarrow> string" where
  "GetDistOSSuffix goos =
     (if goos = ''windows'' then ''-base-win32-x64.zip''
      else if goos = ''darwin'' then ''-base-darwin-x64.tar.bz2''
      else ''-base-linux-x64.zip'')"

text \<open>\<^verbatim>\<open>GetRootCommand\<close> (lines 205-216).\<close>

definition GetRootCommand :: "string \<Rightarrow> path \<Rightarrow> Cmd" where
  "GetRootCommand goos extractedDir =
     (if goos = ''windows'' then
        exec_Command (filepath_Join goos [extractedDir, ''Kui-base-win32-x64'' @ [CHR 0x5C] @ ''Kui.exe''])
      else if goos = ''darwin'' then
        exec_Command (filepath_Join goos [extractedDir, ''Kui-base-darwin-x64/Kui.app/Contents/MacOS/Kui''])
      else
        exec_Command (filepath_Join goos [extractedDir, ''Kui-base-linux-x64/Kui'']))"

text \<open>\<^verbatim>\<open>GetDistLocation\<close> (lines 218-228).\<close>

definition default_host :: "string \<Rightarrow> string" where
  "default_host version = ''https://s3-api.us-geo.objectstorage.softlayer.net/kui-'' @ version"

definition GetDistLocation :: "proc \<Rightarrow> string \<Rightarrow> string" where
  "GetDistLocation p version =
     (let host = default_host version;
          host = (case LookupEnv p ''KUI_DIST'' of Some DEV_OVERRIDE_HOST \<Rightarrow> DEV_OVERRIDE_HOST
                  | None \<Rightarrow> host);
          host = (if \<not> HasSuffix host ''/'' then host @ ''/'' else host)
      in host @ ''Kui'' @ GetDistOSSuffix (GOOS p))"

section \<open>The file system and the outside world\<close>

text \<open>
  The file system is a map from paths to what is there. The launcher's calls change it as
  the Go documentation of each call says. A call can also be refused by the operating
  system for a reason the map does not show (permissions, a full disk, a directory that
  is not empty, a missing parent directory): \<open>refused\<close> gives the error of such a call,
  and a refused call changes nothing (a recursive removal that fails half-way is not
  modelled). The network and the archive library are outside the
  program: \<open>http_Get\<close> gives the answer to a request, \<open>Unarchive\<close> is the library's
  \<^verbatim>\<open>Unarchive(source, destination)\<close> of the given format, which may change the file
  system in any way. Every statement below holds for every such world.
\<close>

datatype node = File content | Dir | Symlink path

type_synonym fs = "path \<Rightarrow> node option"

datatype fsop = OpRemove | OpRemoveAll | OpMkdirAll | OpCreate | OpWrite | OpOpenFile | OpSymlink

datatype format = TarBz2 | Zip

text \<open>An HTTP response: its status code, the bytes of the body that arrive, and the
  error, if any, that ends the body early.\<close>

record response =
  StatusCode :: nat
  Body :: content
  Body_err :: "error option"

record world =
  http_Get :: "string \<Rightarrow> error + response"
  refused :: "fsop \<Rightarrow> path \<Rightarrow> error option"
  Unarchive :: "format \<Rightarrow> path \<Rightarrow> path \<Rightarrow> fs \<Rightarrow> error option \<times> fs"

text \<open>What a run does, in order: the calls that leave the program, each with its
  result, and the lines it logs.\<close>

datatype event =
    Debug string
  | Errorw error
  | E_Remove path "error option"
  | E_RemoveAll path "error option"
  | E_Stat path "error option"
  | E_MkdirAll path "error option"
  | E_Get string "error option"
  | E_Create path "error option"
  | E_Copy path content "error option"
  | E_Symlink path path "error option"
  | E_Unarchive format path path "error option"
  | E_OpenFile path "error option"

text \<open>\<^verbatim>\<open>os.Stat\<close> fails for a path where nothing is.\<close>

definition os_Stat :: "path \<Rightarrow> fs \<Rightarrow> error option" where
  "os_Stat name fs = (case fs name of None \<Rightarrow> Some ErrNotExist | Some n \<Rightarrow> None)"

text \<open>\<^verbatim>\<open>os.Remove\<close> removes the named file or directory.\<close>

definition os_Remove :: "world \<Rightarrow> path \<Rightarrow> fs \<Rightarrow> error option \<times> fs" where
  "os_Remove w name fs =
     (case fs name of
        None \<Rightarrow> (Some ErrNotExist, fs)
      | Some n \<Rightarrow>
          (case refused w OpRemove name of
             Some e \<Rightarrow> (Some e, fs)
           | None \<Rightarrow> (None, fs(name := None))))"

text \<open>\<open>within goos dir q\<close>: the path \<open>q\<close> is \<open>dir\<close> or lies below it.\<close>

definition within :: "string \<Rightarrow> path \<Rightarrow> path \<Rightarrow> bool" where
  "within goos dir q = (q = dir \<or> HasPrefix q (dir @ [Separator goos]))"

text \<open>\<^verbatim>\<open>os.RemoveAll\<close> removes the path and everything below it; a path where nothing
  is gives no error.\<close>

definition os_RemoveAll :: "world \<Rightarrow> string \<Rightarrow> path \<Rightarrow> fs \<Rightarrow> error option \<times> fs" where
  "os_RemoveAll w goos dir fs =
     (case refused w OpRemoveAll dir of
        Some e \<Rightarrow> (Some e, fs)
      | None \<Rightarrow> (None, (\<lambda>q. if within goos dir q then None else fs q)))"

text \<open>\<^verbatim>\<open>os.MkdirAll\<close> creates the directory and every missing parent.\<close>

definition os_MkdirAll :: "world \<Rightarrow> string \<Rightarrow> path \<Rightarrow> fs \<Rightarrow> error option \<times> fs" where
  "os_MkdirAll w goos dir fs =
     (case refused w OpMkdirAll dir of
        Some e \<Rightarrow> (Some e, fs)
      | None \<Rightarrow> (None, (\<lambda>q. if q \<noteq> [] \<and> within goos q dir \<and> fs q = None then Some Dir else fs q)))"

text \<open>\<^verbatim>\<open>os.Create\<close> creates the file or truncates it.\<close>

definition os_Create :: "world \<Rightarrow> path \<Rightarrow> fs \<Rightarrow> error option \<times> fs" where
  "os_Create w name fs =
     (case refused w OpCreate name of
        Some e \<Rightarrow> (Some e, fs)
      | None \<Rightarrow> (None, fs(name \<mapsto> File [])))"

text \<open>\<^verbatim>\<open>io.Copy(out, resp.Body)\<close>: the bytes that arrive are written to the file; the
  error is that of the write, or the one that ended the body.\<close>

definition io_Copy :: "world \<Rightarrow> path \<Rightarrow> response \<Rightarrow> fs \<Rightarrow> error option \<times> fs" where
  "io_Copy w name resp fs =
     (case refused w OpWrite name of
        Some e \<Rightarrow> (Some e, fs)
      | None \<Rightarrow> (Body_err resp, fs(name \<mapsto> File (Body resp))))"

text \<open>\<^verbatim>\<open>os.OpenFile(name, os.O_RDONLY|os.O_CREATE, 0666)\<close> creates an empty file when
  there is none and leaves an existing one as it is.\<close>

definition os_OpenFile :: "world \<Rightarrow> path \<Rightarrow> fs \<Rightarrow> error option \<times> fs" where
  "os_OpenFile w name fs =
     (case refused w OpOpenFile name of
        Some e \<Rightarrow> (Some e, fs)
      | None \<Rightarrow> (None, (if fs name = None then fs(name \<mapsto> File []) else fs)))"

text \<open>\<^verbatim>\<open>os.Symlink(oldname, newname)\<close> fails when \<open>newname\<close> exists.\<close>

definition os_Symlink :: "world \<Rightarrow> path \<Rightarrow> path \<Rightarrow> fs \<Rightarrow> error option \<times> fs" where
  "os_Symlink w oldname newname fs =
     (case refused w OpSymlink newname of
        Some e \<Rightarrow> (Some e, fs)
      | None \<Rightarrow>
          (if fs newname \<noteq> None then (Some (ErrOther ''file exists''), fs)
           else (None, fs(newname \<mapsto> Symlink oldname))))"

section \<open>Fetching\<close>

text \<open>\<^verbatim>\<open>DownloadFile\<close> (lines 232-251). The status code of the response is not read.\<close>

definition DownloadFile :: "world \<Rightarrow> path \<Rightarrow> string \<Rightarrow> fs \<Rightarrow> error option \<times> fs \<times> event list" where
  "DownloadFile w filepath url fs =
     (case http_Get w url of
        Inl err \<Rightarrow> (Some err, fs, [E_Get url (Some err)])
      | Inr resp \<Rightarrow>
          (case os_Create w filepath fs of
             (Some err, fs1) \<Rightarrow> (Some err, fs1, [E_Get url None, E_Create filepath (Some err)])
           | (None, fs1) \<Rightarrow>
               (case io_Copy w filepath resp fs1 of
                  (err, fs2) \<Rightarrow>
                    (err, fs2,
                     [E_Get url None, E_Create filepath None, E_Copy filepath (Body resp) err]))))"

section \<open>The cache\<close>

text \<open>\<^verbatim>\<open>err.Error()\<close>, as the log lines print it.\<close>

fun Error :: "error \<Rightarrow> string" where
  "Error ErrNotExist = ''file does not exist''"
| "Error ErrSyntax = ''invalid syntax''"
| "Error ErrRange = ''value out of range''"
| "Error (ErrOther msg) = msg"

text \<open>\<^verbatim>\<open>handleError\<close> (lines 378-387) logs an error that is not nil.\<close>

definition handleError :: "error option \<Rightarrow> event list" where
  "handleError err = (case err of None \<Rightarrow> [] | Some e \<Rightarrow> [Errorw e])"

text \<open>\<^verbatim>\<open>MainContext.PluginDirectory\<close> (lines 47-55).\<close>

definition PluginDirectory :: "proc \<Rightarrow> (error + path) \<times> event list" where
  "PluginDirectory p =
     (case UserHomeDir p of
        Inr home \<Rightarrow> (Inr (filepath_Join (GOOS p) [home, ''.kask'']), [])
      | Inl err \<Rightarrow> (Inl err, handleError (Some err)))"

text \<open>\<^verbatim>\<open>GetMetadata\<close> (lines 363-376).\<close>

record Command =
  Name :: string
  Alias :: string
  Description :: string
  Usage :: string

record Metadata =
  Name :: string
  Version :: VersionType
  Commands :: "Command list"

definition GetMetadata :: "string \<Rightarrow> panic + Metadata" where
  "GetMetadata pv =
     (case GetVersion pv of
        Inl pn \<Rightarrow> Inl pn
      | Inr v \<Rightarrow>
          Inr \<lparr>Name = ''kask'', Version = v,
               Commands = [\<lparr>Command.Name = ''kask'', Alias = ''kask'',
                            Description = ''Kask for Krew'', Usage = ''krew kask install ...''\<rparr>]\<rparr>)"

text \<open>How a call of a Go function with the results \<^verbatim>\<open>(value, error)\<close> ends.\<close>

datatype 'a outcome = Panicked panic | Failed error | Returned 'a

text \<open>
  The body of \<^verbatim>\<open>if force\<close> (lines 286-295): both removals are tried, in this order;
  an error of either is logged and nothing else.
\<close>

definition forceReset :: "world \<Rightarrow> string \<Rightarrow> path \<Rightarrow> path \<Rightarrow> fs \<Rightarrow> fs \<times> event list" where
  "forceReset w goos successFile extractedDir fs =
     (case os_Remove w successFile fs of
        (err, fs1) \<Rightarrow>
          (case os_RemoveAll w goos extractedDir fs1 of
             (err2, fs2) \<Rightarrow>
               (fs2,
                [E_Remove successFile err]
                @ (case err of None \<Rightarrow> [] | Some e \<Rightarrow> [Debug (''error removing lock file '' @ Error e)])
                @ [E_RemoveAll extractedDir err2]
                @ (case err2 of None \<Rightarrow> [] | Some e \<Rightarrow> [Debug (''error removing unpack '' @ Error e)]))))"

text \<open>
  The body of the readiness check when \<^verbatim>\<open>os.Stat(successFile)\<close> has failed (lines
  298-334). The results of \<^verbatim>\<open>os.MkdirAll\<close>, of removing an old link and of
  \<^verbatim>\<open>os.Symlink\<close> are not looked at. The archive always goes to
  \<^verbatim>\<open>downloaded.zip\<close>; the decoder is chosen by the ending of the URL.
\<close>

definition fetchDist ::
  "world \<Rightarrow> string \<Rightarrow> string \<Rightarrow> path \<Rightarrow> path \<Rightarrow> path \<Rightarrow> path \<Rightarrow> string \<Rightarrow> fs
     \<Rightarrow> error option \<times> fs \<times> event list" where
  "fetchDist w goos url binDir targetDir successFile executable basenameOfSelf fs =
     (let downloadedFile = filepath_Join goos [targetDir, ''downloaded.zip'']; 
          extractedDir = filepath_Join goos [targetDir, ''extract'']
      in case os_MkdirAll w goos extractedDir fs of
        (merr, fs1) \<Rightarrow>
          (case DownloadFile w downloadedFile url fs1 of
             (Some err, fs2, dtr) \<Rightarrow>
               (Some err, fs2, [E_MkdirAll extractedDir merr] @ dtr @ handleError (Some err))
           | (None, fs2, dtr) \<Rightarrow>
               (let targetOfSymlink = filepath_Join goos [binDir, ''kubectl-'' @ basenameOfSelf]
                in case os_Remove w targetOfSymlink fs2 of
                  (rerr, fs3) \<Rightarrow>
                    (case os_Symlink w executable targetOfSymlink fs3 of
                       (serr, fs4) \<Rightarrow>
                         (let fmt = (if HasSuffix url ''.tar.bz2'' then TarBz2 else Zip);
                              tr4 = [E_MkdirAll extractedDir merr] @ dtr
                                @ [E_Remove targetOfSymlink rerr,
                                   E_Symlink executable targetOfSymlink serr,
                                   Debug (''Symlinked ourselves to '' @ targetOfSymlink),
                                   Debug (''Downloaded kui-base '' @ downloadedFile),
                                   Debug (''Extracting kui-base '' @ extractedDir)]
                          in case Unarchive w fmt downloadedFile extractedDir fs4 of
                            (Some err, fs5) \<Rightarrow>
                              (Some err, fs5,
                               tr4 @ [E_Unarchive fmt downloadedFile extractedDir (Some err)]
                                 @ handleError (Some err))
                          | (None, fs5) \<Rightarrow>
                              (let tr5 = tr4 @ [E_Unarchive fmt downloadedFile extractedDir None,
                                                Debug (''Extracted kui-base '' @ extractedDir)]
                               in case os_OpenFile w successFile fs5 of
                                 (Some err, fs6) \<Rightarrow>
                                   (Some err, fs6,
                                    tr5 @ [E_OpenFile successFile (Some err)] @ handleError (Some err))
                               | (None, fs6) \<Rightarrow>
                                   (None, fs6, tr5 @ [E_OpenFile successFile None])))))))"

text \<open>
  \<^verbatim>\<open>DownloadDistIfNecessary\<close> (lines 253-340). It gives the result of the call, the
  file system it leaves, and what it did.
\<close>

definition DownloadDistIfNecessary ::
  "proc \<Rightarrow> world \<Rightarrow> bool \<Rightarrow> fs \<Rightarrow> Cmd outcome \<times> fs \<times> event list" where
  "DownloadDistIfNecessary p w force fs =
     (let goos = GOOS p;
          tr0 = [Debug (''force refetch? '' @ (if force then ''true'' else ''false''))]
      in case GetMetadata (Plugin_version p) of
        Inl pn \<Rightarrow> (Panicked pn, fs, tr0)
      | Inr metadata \<Rightarrow>
          (let version = String (Plugin_version p) (Version metadata);
               url = GetDistLocation p version
           in case PluginDirectory p of
             (Inl err, ptr) \<Rightarrow> (Failed err, fs, tr0 @ ptr @ handleError (Some err))
           | (Inr pluginDir, ptr) \<Rightarrow>
               (let binDir = filepath_Join goos [pluginDir, ''bin''];
                    targetDir = filepath_Join goos [pluginDir, ''/cache-'' @ version];
                    successFile = filepath_Join goos [targetDir, ''success''];
                    extractedDir = filepath_Join goos [targetDir, ''extract''];
                    tr1 = tr0 @ ptr @ [Debug (''targetDir '' @ targetDir)]
                in case Executable p of
                  Inl err \<Rightarrow> (Failed err, fs, tr1 @ handleError (Some err))
                | Inr executable \<Rightarrow>
                    (let basenameOfSelf = filepath_Base goos executable;
                         command = (GetRootCommand goos extractedDir)
                           \<lparr>Env := Environ p @
                              [''KUI_BIN_DIR='' @ binDir, ''KUI_BIN_PREFIX=kubectl-'',
                               ''KUI_BIN_PREFIX_FOR_COMMANDS=kubectl'', ''KUI_BIN='' @ executable,
                               ''KUI_DEFAULT_PRETTY_TYPE='' @ basenameOfSelf]\<rparr>
                     in case (if force then forceReset w goos successFile extractedDir fs
                              else (fs, [])) of
                       (fs2, tr2) \<Rightarrow>
                         (case os_Stat successFile fs2 of
                            Some serr \<Rightarrow>
                              (case fetchDist w goos url binDir targetDir successFile executable
                                      basenameOfSelf fs2 of
                                 (Some err, fs3, tr3) \<Rightarrow>
                                   (Failed err, fs3,
                                    tr1 @ tr2 @ [E_Stat successFile (Some serr)] @ tr3)
                               | (None, fs3, tr3) \<Rightarrow>
                                   (Returned command, fs3,
                                    tr1 @ tr2 @ [E_Stat successFile (Some serr)] @ tr3))
                          | None \<Rightarrow>
                              (Returned command, fs2,
                               tr1 @ tr2 @ [E_Stat successFile None,
                                            Debug ''Using cached download'']))))))"

section \<open>Launching\<close>

text \<open>
  The regular expression \<^verbatim>\<open>^kubectl-\<close> (line 140) is a literal behind the anchor
  \<^verbatim>\<open>^\<close>, which in Go matches at the start of the text only. So it matches a string
  exactly when the string starts with the literal, and there is at most one match to
  replace.
\<close>

definition MatchString :: "string \<Rightarrow> string \<Rightarrow> bool" where
  "MatchString literal s = HasPrefix s literal"

definition ReplaceAllString :: "string \<Rightarrow> string \<Rightarrow> string \<Rightarrow> string" where
  "ReplaceAllString literal src repl =
     (if HasPrefix src literal then repl @ drop (length literal) src else src)"

definition defaultCommandContext :: string where
  "defaultCommandContext = ''plugin''"

text \<open>The command context (lines 139-149), from \<^verbatim>\<open>args[0]\<close>.\<close>

definition kuiCommandContext :: "string \<Rightarrow> string" where
  "kuiCommandContext arg0 =
     (let base = path_Base arg0;
          ctx = (if MatchString ''kubectl-'' base then ReplaceAllString ''kubectl-'' base []
                 else defaultCommandContext)
      in if ctx = ''kask'' then defaultCommandContext else ctx)"

datatype ExecStyle = ExecWithStart | ExecWithRun

text \<open>
  The execution style (lines 153-161), with the environment entries and the log lines
  added on the way. \<^verbatim>\<open>kaskArgs[1]\<close> is read only when there is more than one
  argument.
\<close>

definition execStyle :: "string list \<Rightarrow> panic + ExecStyle \<times> string list \<times> event list" where
  "execStyle kaskArgs =
     (case index kaskArgs 0 of
        Inl pn \<Rightarrow> Inl pn
      | Inr arg \<Rightarrow>
          (if arg = ''install'' \<or> arg = ''uninstall'' \<or> arg = ''list'' \<or> arg = ''version''
              \<or> arg = ''commands''
           then (if length kaskArgs = 1 \<or> kaskArgs ! 1 \<noteq> ''--ui''
                 then Inr (ExecWithRun, [''KUI_HEADLESS=true''], [Debug ''using headless mode''])
                 else Inr (ExecWithStart, [], []))
           else Inr (ExecWithStart, [], [])))"

text \<open>
  \<^verbatim>\<open>Run\<close> (lines 104-174) with \<^verbatim>\<open>invokeRun\<close> (lines 176-192), up to the start of
  the child process: the run ends with \<^verbatim>\<open>os.Exit\<close>, with a panic, or with the child
  command started in one of the two styles. What is printed to standard output is left
  out.
\<close>

datatype ending = Exited nat | Crashed panic | Launched Cmd ExecStyle

definition Run :: "proc \<Rightarrow> world \<Rightarrow> string list \<Rightarrow> fs \<Rightarrow> ending \<times> fs \<times> event list" where
  "Run p w args fs =
     (if length args = 1 \<or> (length args = 2 \<and> (args ! 1 = ''-h'' \<or> args ! 1 = ''--help''))
      then (Exited 1, fs, [])
      else case index args 1 of
        Inl pn \<Rightarrow> (Crashed pn, fs, [])
      | Inr arg1 \<Rightarrow>
          (let refreshRequested = (arg1 = ''refresh'');
               tr0 = [Debug (''refreshRequested? '' @ (if refreshRequested then ''true'' else ''false''))]
           in case DownloadDistIfNecessary p w refreshRequested fs of
             (Panicked pn, fs1, tr1) \<Rightarrow> (Crashed pn, fs1, tr0 @ tr1)
           | (Failed err, fs1, tr1) \<Rightarrow> (Exited 1, fs1, tr0 @ tr1)
           | (Returned cmd, fs1, tr1) \<Rightarrow>
               (let kaskArgs = (if refreshRequested then [''version''] else drop 1 args);
                    tr2 = tr0 @ tr1 @ (if refreshRequested then [Debug ''refresh done''] else []);
                    ctx = kuiCommandContext (args ! 0);
                    tr3 = tr2 @ [Debug (''command context: '' @ ctx)];
                    cmd = cmd\<lparr>Env := Env cmd @ [''KUI_COMMAND_CONTEXT='' @ ctx]\<rparr>
                in case execStyle kaskArgs of
                  Inl pn \<Rightarrow> (Crashed pn, fs1, tr3)
                | Inr (style, headless, logged) \<Rightarrow>
                    (let cmd = cmd\<lparr>Env := Env cmd @ headless\<rparr>;
                         cmd = cmd\<lparr>Args := Args cmd @ kaskArgs\<rparr>;
                         tr4 = tr3 @ logged @ [Debug (''args ['' @ Join (Args cmd) CHR '' '' @ '']'')]
                     in (Launched cmd style, fs1, tr4)))))"

section \<open>Observations\<close>

text \<open>Kinds of events: a request to the network, an unpacking, a download that has
  ended without error, an unpacking that has ended without error, the call that creates
  the success marker, that call without error, the readiness check, the readiness check
  failing, and the calls that change the file system.\<close>

fun is_network :: "event \<Rightarrow> bool" where
  "is_network (E_Get url res) = True"
| "is_network e = False"

fun is_extraction :: "event \<Rightarrow> bool" where
  "is_extraction (E_Unarchive fmt src dst res) = True"
| "is_extraction e = False"





fun is_stat :: "event \<Rightarrow> bool" where
  "is_stat (E_Stat name res) = True"
| "is_stat e = False"


fun is_write :: "event \<Rightarrow> bool" where
  "is_write (Debug msg) = False"
| "is_write (Errorw err) = False"
| "is_write (E_Stat name res) = False"
| "is_write (E_Get url res) = False"
| "is_write e = True"

fun is_Returned :: "'a outcome \<Rightarrow> bool" where
  "is_Returned (Returned x) = True"
| "is_Returned r = False"

text \<open>
  The layout of the cache, as \<^verbatim>\<open>DownloadDistIfNecessary\<close> computes it (lines 259-284)
  for a process whose version, home directory and executable resolve.
\<close>

definition resolves :: "proc \<Rightarrow> bool" where
  "resolves p = (\<not> isl (GetVersion (Plugin_version p)) \<and> \<not> isl (UserHomeDir p) \<and> \<not> isl (Executable p))"

definition version_of :: "proc \<Rightarrow> string" where
  "version_of p = String (Plugin_version p) (projr (GetVersion (Plugin_version p)))"

definition pluginDir_of :: "proc \<Rightarrow> path" where
  "pluginDir_of p = filepath_Join (GOOS p) [projr (UserHomeDir p), ''.kask'']"

definition binDir_of :: "proc \<Rightarrow> path" where
  "binDir_of p = filepath_Join (GOOS p) [pluginDir_of p, ''bin'']"

definition targetDir_of :: "proc \<Rightarrow> path" where
  "targetDir_of p = filepath_Join (GOOS p) [pluginDir_of p, ''/cache-'' @ version_of p]"

definition successFile_of :: "proc \<Rightarrow> path" where
  "successFile_of p = filepath_Join (GOOS p) [targetDir_of p, ''success'']"

definition extractedDir_of :: "proc \<Rightarrow> path" where
  "extractedDir_of p = filepath_Join (GOOS p) [targetDir_of p, ''extract'']"

definition downloadedFile_of :: "proc \<Rightarrow> path" where
  "downloadedFile_of p = filepath_Join (GOOS p) [targetDir_of p, ''downloaded.zip'']"

definition command_of :: "proc \<Rightarrow> Cmd" where
  "command_of p =
     (GetRootCommand (GOOS p) (extractedDir_of p))
       \<lparr>Env := Environ p @
          [''KUI_BIN_DIR='' @ binDir_of p, ''KUI_BIN_PREFIX=kubectl-'',
           ''KUI_BIN_PREFIX_FOR_COMMANDS=kubectl'', ''KUI_BIN='' @ projr (Executable p),
           ''KUI_DEFAULT_PRETTY_TYPE='' @ filepath_Base (GOOS p) (projr (Executable p))]\<rparr>"

text \<open>
  Paths with a plain last element. An element is plain when it is not empty, not
  \<^verbatim>\<open>.\<close> or \<^verbatim>\<open>..\<close>, and holds no separator. \<open>dir_part goos d\<close> is what
  \<^verbatim>\<open>filepath.Join\<close> puts in front of a plain element joined to \<open>d\<close>: nothing for
  an empty \<open>d\<close>, otherwise the cleaned \<open>d\<close> with a separator behind it.
  \<open>last_element\<close> is what stands behind the last separator of a path.
\<close>

definition plain :: "string \<Rightarrow> string \<Rightarrow> bool" where
  "plain goos x = (x \<noteq> [] \<and> x \<noteq> ''.'' \<and> x \<noteq> ''..'' \<and> list_all (\<lambda>c. \<not> IsPathSeparator goos c) x)"

definition dir_part :: "string \<Rightarrow> path \<Rightarrow> path" where
  "dir_part goos d =
     (if d = [] then []
      else (if IsPathSeparator goos (hd d) then [Separator goos] else [])
        @ (if foldl (clean_step (IsPathSeparator goos (hd d))) [] (pieces (IsPathSeparator goos) d) = [] then []
           else Join (foldl (clean_step (IsPathSeparator goos (hd d))) [] (pieces (IsPathSeparator goos) d))
                  (Separator goos) @ [Separator goos]))"

definition last_element :: "string \<Rightarrow> path \<Rightarrow> string" where
  "last_element goos q = rev (takeWhile (\<lambda>c. \<not> IsPathSeparator goos c) (rev q))"

definition cache_part :: "proc \<Rightarrow> path" where
  "cache_part p = dir_part (GOOS p) (targetDir_of p)"

text \<open>The link to the launcher that a fetch makes in the directory of binaries (line
  309), and the archive format it unpacks with (line 317).\<close>

definition link_of :: "proc \<Rightarrow> path" where
  "link_of p = filepath_Join (GOOS p)
     [binDir_of p, ''kubectl-'' @ filepath_Base (GOOS p) (projr (Executable p))]"

definition archive_format :: "proc \<Rightarrow> format" where
  "archive_format p = (if HasSuffix (GetDistLocation p (version_of p)) ''.tar.bz2'' then TarBz2 else Zip)"

text \<open>
  The steps of a fetch (lines 298-334), each on the file system that the step before it
  has left: the directory of unpacked files is made and the archive is downloaded; the
  launcher is linked; the archive is unpacked; the success file is created.
  \<open>handed_to_library\<close> is the file system the archive library is called on, and
  \<open>unpacked\<close> what the library returns. \<open>fetch_again\<close> is the sequence of the steps:
  a step that fails ends it with its error, and the root command is the result when all
  of them have succeeded.
\<close>

definition download_stage :: "proc \<Rightarrow> world \<Rightarrow> fs \<Rightarrow> error option \<times> fs" where
  "download_stage p w fs =
     (case DownloadFile w (downloadedFile_of p) (GetDistLocation p (version_of p))
             (snd (os_MkdirAll w (GOOS p) (extractedDir_of p) fs)) of
        (err, fs1, tr) \<Rightarrow> (err, fs1))"

definition link_stage :: "proc \<Rightarrow> world \<Rightarrow> fs \<Rightarrow> fs" where
  "link_stage p w fs =
     snd (os_Symlink w (projr (Executable p)) (link_of p) (snd (os_Remove w (link_of p) fs)))"

definition unpack_stage :: "proc \<Rightarrow> world \<Rightarrow> fs \<Rightarrow> error option \<times> fs" where
  "unpack_stage p w fs = Unarchive w (archive_format p) (downloadedFile_of p) (extractedDir_of p) fs"

definition marker_stage :: "proc \<Rightarrow> world \<Rightarrow> fs \<Rightarrow> error option \<times> fs" where
  "marker_stage p w fs = os_OpenFile w (successFile_of p) fs"

definition handed_to_library :: "proc \<Rightarrow> world \<Rightarrow> fs \<Rightarrow> fs" where
  "handed_to_library p w fs = link_stage p w (snd (download_stage p w fs))"

definition unpacked :: "proc \<Rightarrow> world \<Rightarrow> fs \<Rightarrow> error option \<times> fs" where
  "unpacked p w fs = unpack_stage p w (handed_to_library p w fs)"

definition fetch_again :: "proc \<Rightarrow> world \<Rightarrow> fs \<Rightarrow> Cmd outcome \<times> fs" where
  "fetch_again p w fs =
     (case download_stage p w fs of
        (Some err, fs1) \<Rightarrow> (Failed err, fs1)
      | (None, fs1) \<Rightarrow>
          (case unpack_stage p w (link_stage p w fs1) of
             (Some err, fs2) \<Rightarrow> (Failed err, fs2)
           | (None, fs2) \<Rightarrow>
               (case marker_stage p w fs2 of
                  (Some err, fs3) \<Rightarrow> (Failed err, fs3)
                | (None, fs3) \<Rightarrow> (Returned (command_of p), fs3))))"


definition log_head :: "proc \<Rightarrow> bool \<Rightarrow> event list" where
  "log_head p force =
     [Debug (''force refetch? '' @ (if force then ''true'' else ''false'')),
      Debug (''targetDir '' @ targetDir_of p)]"

text \<open>The number of \<^verbatim>\<open>/\<close> a string ends in, and the number of \<^verbatim>\<open>/\<close> that stand
  in a URL right before its file name.\<close>

definition trailing_slashes :: "string \<Rightarrow> nat" where
  "trailing_slashes s = length (takeWhile (\<lambda>c. c = CHR ''/'') (rev s))"

definition separating_slashes :: "string \<Rightarrow> string \<Rightarrow> nat" where
  "separating_slashes url file = trailing_slashes (take (length url - length file) url)"

text \<open>The host of the URL: the value of \<^verbatim>\<open>KUI_DIST\<close> when it is set, the default
  host of the version otherwise.\<close>

definition dist_host :: "proc \<Rightarrow> string \<Rightarrow> string" where
  "dist_host p version =
     (case LookupEnv p ''KUI_DIST'' of Some override \<Rightarrow> override | None \<Rightarrow> default_host version)"

text \<open>How a component of the version is read: what is left of it without one leading
  sign, the digits that part starts with, and the number these digits write, with the
  sign of the component.\<close>

definition unsigned_part :: "string \<Rightarrow> string" where
  "unsigned_part c = (if c \<noteq> [] \<and> (hd c = CHR ''+'' \<or> hd c = CHR ''-'') then tl c else c)"

definition leading_digits :: "string \<Rightarrow> string" where
  "leading_digits c = takeWhile is_digit (unsigned_part c)"

definition signed_value :: "string \<Rightarrow> int" where
  "signed_value c =
     (if c \<noteq> [] \<and> hd c = CHR ''-'' then - int (digits_val (leading_digits c))
      else int (digits_val (leading_digits c)))"

text \<open>The sub-commands that run without the graphical interface.\<close>

definition headless_commands :: "string list" where
  "headless_commands = [''install'', ''uninstall'', ''list'', ''version'', ''commands'']"

section \<open>Sample inputs\<close>

text \<open>A linux process with \<^verbatim>\<open>KUI_DIST\<close> set to the given host, and the same process
  on darwin.\<close>

definition p_override :: "string \<Rightarrow> proc" where
  "p_override host = \<lparr>GOOS = ''linux'', Env_vars = [(''KUI_DIST'', host)],
     UserHomeDir = Inr ''/home/u'', Executable = Inr ''/usr/local/bin/kask'',
     Plugin_version = PLUGIN_VERSION\<rparr>"

definition p_darwin :: proc where
  "p_darwin = (p_override ''http://h'')\<lparr>GOOS := ''darwin''\<rparr>"

text \<open>Sample worlds: every request is answered with the given status and body, the
  operating system refuses what \<open>refusals\<close> says, and the archive library unpacks one
  file and gives the given result.\<close>

definition answer :: "nat \<Rightarrow> content \<Rightarrow> string \<Rightarrow> error + response" where
  "answer status body url = Inr \<lparr>StatusCode = status, Body = body, Body_err = None\<rparr>"

definition no_refusal :: "fsop \<Rightarrow> path \<Rightarrow> error option" where
  "no_refusal op name = None"

definition refusing :: "fsop list \<Rightarrow> fsop \<Rightarrow> path \<Rightarrow> error option" where
  "refusing ops op name = (if op \<in> set ops then Some (ErrOther ''permission denied'') else None)"

definition sample_world ::
  "(string \<Rightarrow> error + response) \<Rightarrow> (fsop \<Rightarrow> path \<Rightarrow> error option) \<Rightarrow> error option \<Rightarrow> world" where
  "sample_world get refusals unarchive_err =
     \<lparr>http_Get = get, refused = refusals,
      Unarchive = (\<lambda>fmt src dst fs. (unarchive_err, fs(dst @ ''/Kui'' \<mapsto> File ''ELF'')))\<rparr>"

text \<open>A cache that is ready, a cache left behind by a crash during unpacking (files
  but no marker), and the root command of the sample process.\<close>

definition fs_ready :: fs where
  "fs_ready = Map.empty(''/home/u/.kask/cache-dev/success'' \<mapsto> File [],
                        ''/home/u/.kask/cache-dev/extract/Kui'' \<mapsto> File ''ELF'')"

definition fs_crashed :: fs where
  "fs_crashed = Map.empty(''/home/u/.kask/cache-dev/extract/Kui'' \<mapsto> File ''EL'')"

definition sample_cmd :: Cmd where
  "sample_cmd = \<lparr>Path = ''/home/u/.kask/cache-dev/extract/Kui-base-linux-x64/Kui'',
     Args = [''/home/u/.kask/cache-dev/extract/Kui-base-linux-x64/Kui''],
     Env = [''KUI_DIST=http://h'', ''KUI_BIN_DIR=/home/u/.kask/bin'', ''KUI_BIN_PREFIX=kubectl-'',
        ''KUI_BIN_PREFIX_FOR_COMMANDS=kubectl'',
        ''KUI_BIN=/usr/local/bin/kask'', ''KUI_DEFAULT_PRETTY_TYPE=kask'']\<rparr>"

section \<open>Facts about the library functions\<close>

lemmas atoi_defs = Atoi_def ParseInt_def ParseUint_def toInt_def is_digit_def digits_val_def digit_val_def
  maxInt_def minInt_def maxUint64_def Let_def

lemmas version_defs = GetVersion_def Split_def index_def

lemmas show_defs = string_of_int_def string_of_nat.simps digit_char_def

lemmas url_defs = p_override_def PLUGIN_VERSION_def GetDistLocation_def LookupEnv_def default_host_def HasSuffix_def
  GetDistOSSuffix_def separating_slashes_def trailing_slashes_def dist_host_def

lemmas ctx_defs = kuiCommandContext_def MatchString_def ReplaceAllString_def defaultCommandContext_def
  path_Base_def base_of_def HasPrefix_def

lemmas os_defs = os_Stat_def os_Remove_def within_def os_RemoveAll_def os_MkdirAll_def os_Create_def
  io_Copy_def os_OpenFile_def os_Symlink_def

lemmas world_defs = sample_world_def answer_def no_refusal_def refusing_def

lemmas path_defs = filepath_Join_def Clean_def clean_step_def Separator_def IsPathSeparator_def
  filepath_Base_def base_of_def

lemmas layout_defs = version_of_def pluginDir_of_def binDir_of_def targetDir_of_def successFile_of_def
  extractedDir_of_def downloadedFile_of_def command_of_def

lemma HasSuffix_append: "HasSuffix (pre @ suf) suf"
  by (simp add: HasSuffix_def)

lemma HasSuffix_iff: "HasSuffix s suf \<longleftrightarrow> (\<exists>pre. s = pre @ suf)"
proof
  assume "HasSuffix s suf"
  then have "s = take (length s - length suf) s @ suf"
    by (metis HasSuffix_def append_take_drop_id)
  then show "\<exists>pre. s = pre @ suf" ..
next
  assume "\<exists>pre. s = pre @ suf"
  then show "HasSuffix s suf" by (auto simp: HasSuffix_append)
qed

lemma HasPrefix_append: "HasPrefix (pre @ rest) pre"
  by (simp add: HasPrefix_def)

lemma HasPrefix_iff: "HasPrefix s pre \<longleftrightarrow> (\<exists>rest. s = pre @ rest)"
proof
  assume "HasPrefix s pre"
  then have "s = pre @ drop (length pre) s"
    by (metis HasPrefix_def append_take_drop_id)
  then show "\<exists>rest. s = pre @ rest" ..
next
  assume "\<exists>rest. s = pre @ rest"
  then show "HasPrefix s pre" by (auto simp: HasPrefix_append)
qed

lemma HasSuffix_slash: "HasSuffix s ''/'' \<longleftrightarrow> s \<noteq> [] \<and> last s = CHR ''/''"
  by (auto simp: HasSuffix_iff) (metis append_butlast_last_id)

lemma trailing_slashes_snoc:
  "trailing_slashes (s @ ''/'') = Suc (trailing_slashes s)"
  by (simp add: trailing_slashes_def)

lemma trailing_slashes_0: "\<not> HasSuffix s ''/'' \<Longrightarrow> trailing_slashes s = 0"
  by (cases s rule: rev_cases) (auto simp: trailing_slashes_def HasSuffix_slash)

lemma trailing_slashes_pos: "HasSuffix s ''/'' \<Longrightarrow> 1 \<le> trailing_slashes s"
  by (cases s rule: rev_cases) (auto simp: trailing_slashes_def HasSuffix_slash)

lemma digits_mono: "n \<le> foldl (\<lambda>n c. n * 10 + digit_val c) n s"
proof (induction s arbitrary: n)
  case Nil
  then show ?case by simp
next
  case (Cons c s)
  have "n \<le> n * 10 + digit_val c" by simp
  also have "\<dots> \<le> foldl (\<lambda>n c. n * 10 + digit_val c) (n * 10 + digit_val c) s"
    by (rule Cons.IH)
  finally show ?case by simp
qed

lemma digits_bound:
  "list_all is_digit s \<Longrightarrow> foldl (\<lambda>n c. n * 10 + digit_val c) n s < (n + 1) * 10 ^ length s"
proof (induction s arbitrary: n)
  case Nil
  then show ?case by simp
next
  case (Cons c s)
  from Cons.prems have r: "list_all is_digit s" by simp
  from Cons.prems have d: "digit_val c \<le> 9"
    by (auto simp: is_digit_def digit_val_def)
  have "foldl (\<lambda>n c. n * 10 + digit_val c) (n * 10 + digit_val c) s
          < (n * 10 + digit_val c + 1) * 10 ^ length s"
    by (rule Cons.IH [OF r])
  also have "\<dots> \<le> ((n + 1) * 10) * 10 ^ length s"
    using d by (intro mult_right_mono) auto
  finally show ?case by (simp add: algebra_simps)
qed

lemma ParseUint_digits_eq:
  "n \<le> maxUint64 \<Longrightarrow>
   ParseUint_digits n s =
     (if maxUint64 < foldl (\<lambda>n c. n * 10 + digit_val c) n (takeWhile is_digit s)
      then (maxUint64, Some ErrRange)
      else if takeWhile is_digit s \<noteq> s then (0, Some ErrSyntax)
      else (foldl (\<lambda>n c. n * 10 + digit_val c) n s, None))"
proof (induction s arbitrary: n)
  case Nil
  then show ?case by simp
next
  case (Cons c s)
  show ?case
  proof (cases "is_digit c")
    case False
    with Cons.prems show ?thesis by simp
  next
    case True
    let ?n1 = "n * 10 + digit_val c"
    show ?thesis
    proof (cases "maxUint64 < ?n1")
      case over: True
      have "?n1 \<le> foldl (\<lambda>n c. n * 10 + digit_val c) ?n1 (takeWhile is_digit s)"
        by (rule digits_mono)
      with over have "maxUint64 < foldl (\<lambda>n c. n * 10 + digit_val c) ?n1 (takeWhile is_digit s)"
        by simp
      with True over show ?thesis by simp
    next
      case fits: False
      then have "\<not> maxUint64 div 10 + 1 \<le> n" by (simp add: maxUint64_def)
      with True fits Cons.IH [of ?n1] show ?thesis by simp
    qed
  qed
qed

lemma Atoi_digits_eq:
  "Atoi_digits n s = (if list_all is_digit s then Some (foldl (\<lambda>n c. n * 10 + digit_val c) n s) else None)"
  by (induction s arbitrary: n) auto

lemma takeWhile_all: "takeWhile P s = s \<longleftrightarrow> list_all P s"
  by (induction s) auto

lemma short_fits:
  assumes "length s < 19"
  shows "digits_val (takeWhile is_digit s) < 10 ^ 18"
proof -
  have a: "list_all is_digit (takeWhile is_digit s)"
    by (induction s) auto
  have "digits_val (takeWhile is_digit s) < 10 ^ length (takeWhile is_digit s)"
    using digits_bound [OF a, of 0] by (simp add: digits_val_def)
  also have "\<dots> \<le> (10::nat) ^ 18"
    using assms length_takeWhile_le [of is_digit s] by (intro power_increasing) auto
  finally show ?thesis .
qed

lemma toInt_reads:
  "toInt c =
     (if leading_digits c \<noteq> unsigned_part c \<and> digits_val (leading_digits c) \<le> maxUint64 then 0
      else max minInt (min maxInt (signed_value c)))"
proof (cases "0 < length c \<and> length c < 19")
  case True
  then have ne: "c \<noteq> []" by auto
  have len: "length (unsigned_part c) < 19"
    using True by (auto simp: unsigned_part_def)
  from short_fits [OF len] have v: "digits_val (leading_digits c) < 10 ^ 18"
    by (simp add: leading_digits_def)
  then have fits: "digits_val (leading_digits c) \<le> maxUint64"
    by (simp add: maxUint64_def)
  have rng: "int (digits_val (leading_digits c)) \<le> maxInt" "minInt \<le> - int (digits_val (leading_digits c))"
    using v by (simp_all add: maxInt_def minInt_def)
  show ?thesis
  proof (cases "leading_digits c = unsigned_part c")
    case False
    then have "\<not> list_all is_digit (unsigned_part c)"
      unfolding leading_digits_def takeWhile_all .
    with True False fits ne show ?thesis
      by (auto simp: toInt_def Atoi_def Let_def Atoi_digits_eq unsigned_part_def)
  next
    case eq: True
    then have all: "list_all is_digit (unsigned_part c)"
      unfolding leading_digits_def takeWhile_all .
    have dv: "foldl (\<lambda>n c. n * 10 + digit_val c) 0 (unsigned_part c) = digits_val (leading_digits c)"
      using eq by (simp add: digits_val_def)
    show ?thesis
    proof (cases "unsigned_part c = []")
      case e: True
      with eq have "digits_val (leading_digits c) = 0" by (simp add: digits_val_def)
      with True e eq ne show ?thesis
        by (auto simp: toInt_def Atoi_def Let_def unsigned_part_def signed_value_def maxInt_def minInt_def
            split: if_splits)
    next
      case n: False
      have "toInt c = signed_value c"
        using True n all dv ne
        by (auto simp: toInt_def Atoi_def Let_def Atoi_digits_eq unsigned_part_def signed_value_def
            split: if_splits)
      with eq rng show ?thesis
        by (auto simp: signed_value_def)
    qed
  qed
next
  case False
  show ?thesis
  proof (cases "c = []")
    case True
    then show ?thesis
      by (simp add: toInt_def Atoi_def ParseInt_def leading_digits_def unsigned_part_def signed_value_def
          digits_val_def maxInt_def minInt_def)
  next
    case ne: False
    let ?u = "unsigned_part c"
    have s1: "(if hd c = CHR ''+'' \<or> hd c = CHR ''-'' then tl c else c) = ?u"
      using ne by (simp add: unsigned_part_def)
    have pi: "Atoi c = ParseInt c" using False by (auto simp: Atoi_def)
    show ?thesis
    proof (cases "?u = []")
      case True
      then show ?thesis
        using ne s1
        by (simp add: toInt_def pi ParseInt_def ParseUint_def leading_digits_def signed_value_def
          digits_val_def maxInt_def minInt_def Let_def)
    next
      case un: False
      have pu: "ParseUint ?u =
         (if maxUint64 < digits_val (leading_digits c) then (maxUint64, Some ErrRange)
          else if leading_digits c \<noteq> ?u then (0, Some ErrSyntax)
          else (digits_val (leading_digits c), None))"
      proof (cases "leading_digits c = ?u")
        case True
        then have "takeWhile is_digit ?u = ?u" by (simp add: leading_digits_def)
        with un ParseUint_digits_eq [of 0 ?u] True show ?thesis
          by (simp add: ParseUint_def digits_val_def)
      next
        case False
        with un ParseUint_digits_eq [of 0 ?u] show ?thesis
          by (simp add: ParseUint_def digits_val_def leading_digits_def)
      qed
      show ?thesis
        using ne s1 pu
        by (auto simp: toInt_def pi ParseInt_def Let_def signed_value_def maxInt_def minInt_def maxUint64_def)
    qed
  qed
qed

lemma path_Base_plain:
  "name \<noteq> [] \<Longrightarrow> CHR ''/'' \<notin> set name \<Longrightarrow> path_Base name = name"
proof -
  assume ne: "name \<noteq> []" and ns: "CHR ''/'' \<notin> set name"
  have d: "dropWhile (\<lambda>c. c = CHR ''/'') (rev name) = rev name"
    using ne ns by (cases "rev name") auto
  have t: "takeWhile (\<lambda>c. c \<noteq> CHR ''/'') (rev name) = rev name"
    using ns by (auto simp add: takeWhile_eq_all_conv)
  show ?thesis
    by (simp add: path_Base_def base_of_def Let_def d t ne)
qed

lemma pieces_nonempty: "pieces is_sep s \<noteq> []"
  by (induction s) (auto split: list.splits)

lemma pieces_append:
  "is_sep c \<Longrightarrow> pieces is_sep (a @ c # b) = pieces is_sep a @ pieces is_sep b"
proof (induction a)
  case Nil
  then show ?case by simp
next
  case (Cons x a)
  then show ?case
    using pieces_nonempty [of is_sep a] by (auto split: list.splits)
qed

lemma pieces_plain: "\<forall>c \<in> set x. \<not> is_sep c \<Longrightarrow> pieces is_sep x = [x]"
  by (induction x) auto

lemma Join_snoc: "Join (out @ [x]) sep = (if out = [] then x else Join out sep @ sep # x)"
  by (induction out sep rule: Join.induct) auto

lemma Clean_last_element:
  assumes x: "x \<noteq> []" "x \<noteq> ''.''" "x \<noteq> ''..''" "\<forall>c \<in> set x. \<not> IsPathSeparator goos c"
    and ps: "pieces (IsPathSeparator goos) s = front @ [x]" and s: "s \<noteq> []"
  shows "\<exists>y. Clean goos s = y @ x"
proof -
  define rooted where "rooted = IsPathSeparator goos (hd s)"
  define out where "out = foldl (clean_step rooted) [] front"
  have "foldl (clean_step rooted) [] (pieces (IsPathSeparator goos) s) = out @ [x]"
    using x by (simp add: ps out_def clean_step_def)
  then have "Clean goos s =
      (if rooted then [Separator goos] else []) @ (if out = [] then x else Join out (Separator goos) @ Separator goos # x)"
    using s x by (simp add: Clean_def rooted_def [symmetric] Join_snoc Let_def)
  then show ?thesis
    by (cases "out = []") auto
qed

lemma Separator_is_sep: "IsPathSeparator goos (Separator goos)"
  by (simp add: IsPathSeparator_def Separator_def)

lemma filepath_Join_last_element:
  assumes x: "x \<noteq> []" "x \<noteq> ''.''" "x \<noteq> ''..''" "\<forall>c \<in> set x. \<not> IsPathSeparator goos c"
  shows "\<exists>y. filepath_Join goos [d, x] = y @ x"
proof (cases "d = []")
  case True
  have "pieces (IsPathSeparator goos) x = [] @ [x]"
    using x by (simp add: pieces_plain)
  from Clean_last_element [OF x this] x True show ?thesis
    by (simp add: filepath_Join_def)
next
  case False
  have "pieces (IsPathSeparator goos) (d @ Separator goos # x) = pieces (IsPathSeparator goos) d @ [x]"
    using x by (simp add: pieces_append Separator_is_sep pieces_plain)
  from Clean_last_element [OF x this] False show ?thesis
    by (simp add: filepath_Join_def Join.simps)
qed

lemma takeWhile_stop:
  "\<forall>e \<in> set xs. P e \<Longrightarrow> \<not> P y \<Longrightarrow> takeWhile P (xs @ y # ys) = xs"
  by (induction xs) auto


lemma plain_iff:
  "plain goos x \<longleftrightarrow>
     x \<noteq> [] \<and> x \<noteq> ''.'' \<and> x \<noteq> ''..'' \<and> (\<forall>c \<in> set x. \<not> IsPathSeparator goos c)"
  by (simp add: plain_def list_all_iff)

lemma foldl_clean_empties:
  "\<forall>e \<in> set es. e = [] \<Longrightarrow> foldl (clean_step rooted) out es = out"
  by (induction es arbitrary: out) (auto simp: clean_step_def)

lemma Clean_last_kept:
  assumes x: "plain goos x"
    and ps: "pieces (IsPathSeparator goos) s = front @ x # empties" and em: "\<forall>e \<in> set empties. e = []"
    and s: "s \<noteq> []"
  shows "Clean goos s =
     (if IsPathSeparator goos (hd s) then [Separator goos] else [])
     @ (if foldl (clean_step (IsPathSeparator goos (hd s))) [] front = [] then []
        else Join (foldl (clean_step (IsPathSeparator goos (hd s))) [] front) (Separator goos) @ [Separator goos])
     @ x"
proof -
  define rooted where "rooted = IsPathSeparator goos (hd s)"
  define out where "out = foldl (clean_step rooted) [] front"
  have "foldl (clean_step rooted) [] (pieces (IsPathSeparator goos) s) = out @ [x]"
    using x em by (simp add: ps out_def clean_step_def plain_iff foldl_clean_empties)
  then have "Clean goos s =
      (if rooted then [Separator goos] else []) @ (if out = [] then x else Join out (Separator goos) @ Separator goos # x)"
    using s x by (simp add: Clean_def rooted_def [symmetric] Join_snoc Let_def plain_iff)
  then show ?thesis
    by (simp add: rooted_def out_def)
qed

lemma dir_part_end: "dir_part goos d = [] \<or> last (dir_part goos d) = Separator goos"
  by (simp add: dir_part_def)



lemma filepath_Join_plain:
  assumes x: "plain goos x"
  shows "filepath_Join goos [d, x] = dir_part goos d @ x"
proof (cases "d = []")
  case True
  have ne: "x \<noteq> []" using x by (simp add: plain_iff)
  have fj: "filepath_Join goos [d, x] = Clean goos x"
    using True ne by (simp add: filepath_Join_def)
  have h: "\<not> IsPathSeparator goos (hd x)"
    using x by (cases x) (simp_all add: plain_iff)
  have "pieces (IsPathSeparator goos) x = [] @ x # []"
    using x by (simp add: pieces_plain plain_iff)
  from Clean_last_kept [OF x this _ ne] h have "Clean goos x = x"
    by simp
  with fj True show ?thesis
    by (simp add: dir_part_def)
next
  case False
  let ?s = "d @ Separator goos # x"
  have fj: "filepath_Join goos [d, x] = Clean goos ?s"
    using False by (simp add: filepath_Join_def)
  have h: "hd ?s = hd d" using False by simp
  have ps: "pieces (IsPathSeparator goos) ?s = pieces (IsPathSeparator goos) d @ x # []"
    using x by (simp add: pieces_append Separator_is_sep pieces_plain plain_iff)
  have "Clean goos ?s = dir_part goos d @ x"
    using Clean_last_kept [OF x ps] False unfolding h dir_part_def by simp
  with fj show ?thesis by simp
qed


lemma filepath_Join_plain_slash:
  assumes x: "plain goos x"
  shows "filepath_Join goos [d, x @ [Separator goos]] = dir_part goos d @ x"
proof -
  have px: "pieces (IsPathSeparator goos) (x @ [Separator goos]) = [x, []]"
    using x pieces_append [of "IsPathSeparator goos" "Separator goos" x "[]"]
    by (simp add: Separator_is_sep pieces_plain plain_iff)
  have ne: "x \<noteq> []" using x by (simp add: plain_iff)
  show ?thesis
  proof (cases "d = []")
    case True
    let ?s = "x @ [Separator goos]"
    have fj: "filepath_Join goos [d, ?s] = Clean goos ?s"
      using True ne by (simp add: filepath_Join_def)
    have h: "\<not> IsPathSeparator goos (hd ?s)"
      using x by (cases x) (simp_all add: plain_iff)
    have ps: "pieces (IsPathSeparator goos) ?s = [] @ x # [[]]"
      using px by simp
    have "Clean goos ?s = x"
      using Clean_last_kept [OF x ps] h by simp
    with fj True show ?thesis
      by (simp add: dir_part_def)
  next
    case False
    let ?s = "d @ Separator goos # x @ [Separator goos]"
    have fj: "filepath_Join goos [d, x @ [Separator goos]] = Clean goos ?s"
      using False by (simp add: filepath_Join_def)
    have h: "hd ?s = hd d" using False by simp
    have ps: "pieces (IsPathSeparator goos) ?s = pieces (IsPathSeparator goos) d @ x # [[]]"
      using px by (simp add: pieces_append Separator_is_sep)
    have "Clean goos ?s = dir_part goos d @ x"
      using Clean_last_kept [OF x ps] False unfolding h dir_part_def by simp
    with fj show ?thesis by simp
  qed
qed

lemma last_element_dir_part:
  assumes "\<forall>c \<in> set x. \<not> IsPathSeparator goos c"
  shows "last_element goos (dir_part goos d @ x) = x"
proof (cases "dir_part goos d = []")
  case True
  have tw: "takeWhile (\<lambda>c. \<not> IsPathSeparator goos c) (rev x) = rev x"
    using assms by (simp add: takeWhile_eq_all_conv)
  show ?thesis
    by (simp add: last_element_def True tw)
next
  case False
  with dir_part_end [of goos d] obtain y where y: "dir_part goos d = y @ [Separator goos]"
    by (metis append_butlast_last_id)
  have "takeWhile (\<lambda>c. \<not> IsPathSeparator goos c) (rev x @ Separator goos # rev y) = rev x"
    by (rule takeWhile_stop) (use assms Separator_is_sep in auto)
  then show ?thesis
    by (simp add: last_element_def y)
qed


lemma base_shape:
  "filepath_Base goos exe = [Separator goos] \<or>
   (filepath_Base goos exe \<noteq> [] \<and> (\<forall>c \<in> set (filepath_Base goos exe). \<not> IsPathSeparator goos c))"
proof (cases "exe = []")
  case True
  then show ?thesis
    by (simp add: filepath_Base_def base_of_def IsPathSeparator_def)
next
  case False
  define b where "b = rev (takeWhile (\<lambda>c. \<not> IsPathSeparator goos c)
                         (rev (rev (dropWhile (IsPathSeparator goos) (rev exe)))))"
  have nb: "\<forall>c \<in> set b. \<not> IsPathSeparator goos c"
    unfolding b_def by (auto dest: set_takeWhileD)
  have "filepath_Base goos exe = (if b = [] then [Separator goos] else b)"
    using False by (simp add: filepath_Base_def base_of_def Let_def b_def)
  with nb show ?thesis by auto
qed

lemma plain_names:
  "plain goos ''success''" "plain goos ''extract''" "plain goos ''downloaded.zip''"
  by (simp_all add: plain_iff IsPathSeparator_def)

lemma layout_names:
  "successFile_of p = cache_part p @ ''success''"
  "extractedDir_of p = cache_part p @ ''extract''"
  "downloadedFile_of p = cache_part p @ ''downloaded.zip''"
  by (simp_all add: successFile_of_def extractedDir_of_def downloadedFile_of_def cache_part_def
      filepath_Join_plain plain_names)

lemma link_last_element:
  "\<exists>b. last_element (GOOS p) (link_of p) = ''kubectl-'' @ b"
proof -
  let ?g = "GOOS p" and ?b = "filepath_Base (GOOS p) (projr (Executable p))"
  from base_shape [of ?g "projr (Executable p)"] show ?thesis
  proof
    assume s: "?b = [Separator ?g]"
    have pl: "plain ?g ''kubectl-''"
      by (simp add: plain_iff IsPathSeparator_def)
    have "link_of p = dir_part ?g (binDir_of p) @ ''kubectl-''"
      unfolding link_of_def s using filepath_Join_plain_slash [OF pl] by simp
    moreover have "\<forall>c \<in> set ''kubectl-''. \<not> IsPathSeparator ?g c"
      by (simp add: IsPathSeparator_def)
    ultimately have "last_element ?g (link_of p) = ''kubectl-'' @ []"
      using last_element_dir_part [of "''kubectl-''" ?g] by simp
    then show ?thesis by blast
  next
    assume n: "?b \<noteq> [] \<and> (\<forall>c \<in> set ?b. \<not> IsPathSeparator ?g c)"
    then have ns: "\<forall>c \<in> set (''kubectl-'' @ ?b). \<not> IsPathSeparator ?g c"
      by (simp add: IsPathSeparator_def)
    then have pl: "plain ?g (''kubectl-'' @ ?b)"
      by (simp add: plain_iff)
    have "link_of p = dir_part ?g (binDir_of p) @ (''kubectl-'' @ ?b)"
      unfolding link_of_def by (rule filepath_Join_plain [OF pl])
    then have "last_element ?g (link_of p) = ''kubectl-'' @ ?b"
      using last_element_dir_part [OF ns] by simp
    then show ?thesis by blast
  qed
qed

lemma layout_last_elements:
  "last_element (GOOS p) (successFile_of p) = ''success''"
  "last_element (GOOS p) (downloadedFile_of p) = ''downloaded.zip''"
  unfolding layout_names cache_part_def
  by (rule last_element_dir_part, simp add: IsPathSeparator_def)+

lemma layout_apart:
  "successFile_of p \<noteq> []"
  "successFile_of p \<noteq> downloadedFile_of p"
  "successFile_of p \<noteq> link_of p"
  "downloadedFile_of p \<noteq> link_of p"
  "\<not> within (GOOS p) (successFile_of p) (extractedDir_of p)"
  "\<not> within (GOOS p) (extractedDir_of p) (successFile_of p)"
proof -
  show "successFile_of p \<noteq> []" "successFile_of p \<noteq> downloadedFile_of p"
    by (simp_all add: layout_names)
  obtain b where b: "last_element (GOOS p) (link_of p) = ''kubectl-'' @ b"
    using link_last_element by blast
  show "successFile_of p \<noteq> link_of p"
    using b layout_last_elements(1) [of p] by auto
  show "downloadedFile_of p \<noteq> link_of p"
    using b layout_last_elements(2) [of p] by auto
  show "\<not> within (GOOS p) (successFile_of p) (extractedDir_of p)"
    "\<not> within (GOOS p) (extractedDir_of p) (successFile_of p)"
    by (simp_all add: within_def HasPrefix_def layout_names)
qed

section \<open>Properties of the version\<close>

text \<open>With fewer than three components the third index expression panics.\<close>

lemma GetVersion_too_short: "GetVersion ''1.2'' = Inl (IndexOutOfRange 2 2)"
  by (simp add: version_defs)

text \<open>
  C4, as the specification has it: an input that does not split into exactly three
  components that are all non-negative integers fails with an \<^verbatim>\<open>InvalidVersionFormat\<close>
  error. The code has no such error. \<^verbatim>\<open>1.x.3\<close> has a component that is no number
  and \<^verbatim>\<open>1.2.3.4\<close> has four components; both resolve to a version.
\<close>

theorem GetVersion_no_format_error_counterexample:
  "GetVersion ''1.x.3'' = Inr (SemVer 1 0 3) \<and> GetVersion ''1.2.3.4'' = Inr (SemVer 1 2 3)"
  by (simp add: version_defs atoi_defs)

text \<open>
  C4, amended. \<^verbatim>\<open>dev\<close> resolves to \<^verbatim>\<open>DevVer\<close>, whose string form is \<^verbatim>\<open>dev\<close>;
  \<^verbatim>\<open>1.2.3\<close> resolves to \<^verbatim>\<open>SemVer{1,2,3}\<close>, whose string form is \<^verbatim>\<open>1.2.3\<close>.
  Every other input with at least three components between dots resolves to the
  \<^verbatim>\<open>SemVer\<close> of its first three components, each read by \<^verbatim>\<open>toInt\<close>, and later
  components are ignored; an input with fewer than three components ends in a panic
  (index out of range), not in an error. \<^verbatim>\<open>toInt\<close> reads a component as an optional
  sign and the digits that follow it. It gives 0 when a byte that is no digit stands
  behind leading digits that write a number up to \<open>2^64 - 1\<close>. In every other case it
  gives the number the leading digits write (0 when there is none), with the sign, brought
  into the range of a 64-bit \<open>int\<close>; so twenty digits 9 give the largest \<open>int\<close> even
  with a letter behind them.
\<close>

theorem GetVersion_resolves:
  "GetVersion ''dev'' = Inr DevVer \<and> String ''dev'' DevVer = ''dev'' \<and>
   GetVersion ''1.2.3'' = Inr (SemVer 1 2 3) \<and> String ''1.2.3'' (SemVer 1 2 3) = ''1.2.3'' \<and>
   (pv \<noteq> ''dev'' \<and> 3 \<le> length (Split pv CHR ''.'') \<longrightarrow>
      GetVersion pv = Inr (SemVer (toInt (Split pv CHR ''.'' ! 0)) (toInt (Split pv CHR ''.'' ! 1))
                             (toInt (Split pv CHR ''.'' ! 2)))) \<and>
   (pv \<noteq> ''dev'' \<and> length (Split pv CHR ''.'') < 3 \<longrightarrow>
      GetVersion pv = Inl (IndexOutOfRange (length (Split pv CHR ''.'')) (length (Split pv CHR ''.'')))) \<and>
   toInt c =
     (if leading_digits c \<noteq> unsigned_part c \<and> digits_val (leading_digits c) \<le> maxUint64 then 0
      else max minInt (min maxInt (signed_value c))) \<and>
   GetVersion ''1.99999999999999999999x.3'' = Inr (SemVer 1 maxInt 3)"
proof -
  have dev: "GetVersion ''dev'' = Inr DevVer"
    by (simp add: GetVersion_def)
  have sem: "GetVersion ''1.2.3'' = Inr (SemVer 1 2 3)"
    by (simp add: version_defs atoi_defs)
  have str: "String ''1.2.3'' (SemVer 1 2 3) = ''1.2.3''"
    by (simp add: show_defs)
  have gen: "GetVersion pv = Inr (SemVer (toInt (Split pv CHR ''.'' ! 0)) (toInt (Split pv CHR ''.'' ! 1))
                             (toInt (Split pv CHR ''.'' ! 2)))"
    if "pv \<noteq> ''dev''" "3 \<le> length (Split pv CHR ''.'')"
    using that by (auto simp add: GetVersion_def index_def Let_def)
  have short: "GetVersion pv = Inl (IndexOutOfRange (length (Split pv CHR ''.'')) (length (Split pv CHR ''.'')))"
    if "pv \<noteq> ''dev''" "length (Split pv CHR ''.'') < 3"
  proof -
    have "0 < length (Split pv CHR ''.'')"
      by (simp add: Split_def pieces_nonempty)
    then have "length (Split pv CHR ''.'') = 1 \<or> length (Split pv CHR ''.'') = 2"
      using that(2) by arith
    then show ?thesis
      using that(1) by (auto simp add: GetVersion_def index_def Let_def)
  qed
  have big: "GetVersion ''1.99999999999999999999x.3'' = Inr (SemVer 1 maxInt 3)"
    by (simp add: version_defs atoi_defs)
  show ?thesis
    using dev sem str gen short big toInt_reads [of c] by simp
qed

theorem GetVersion_resolves_witness:
  "''1.2.3.4'' \<noteq> ''dev'' \<and> 3 \<le> length (Split ''1.2.3.4'' CHR ''.'') \<and>
   GetVersion ''1.2.3.4'' = Inr (SemVer 1 2 3) \<and>
   ''1.2'' \<noteq> ''dev'' \<and> length (Split ''1.2'' CHR ''.'') < 3 \<and>
   GetVersion ''1.2'' = Inl (IndexOutOfRange 2 2) \<and>
   leading_digits ''12a'' = ''12'' \<and> unsigned_part ''12a'' = ''12a'' \<and> toInt ''12a'' = 0 \<and>
   toInt ''-12'' = - 12"
proof -
  have a: "Split ''1.2.3.4'' CHR ''.'' = [''1'', ''2'', ''3'', ''4'']"
    and b: "Split ''1.2'' CHR ''.'' = [''1'', ''2'']"
    by (simp_all add: Split_def)
  have c: "toInt ''1'' = 1 \<and> toInt ''2'' = 2 \<and> toInt ''3'' = 3"
    by (simp add: atoi_defs)
  have d: "leading_digits ''12a'' = ''12''" "unsigned_part ''12a'' = ''12a''"
    "leading_digits ''-12'' = ''12''" "unsigned_part ''-12'' = ''12''"
    by (simp_all add: leading_digits_def unsigned_part_def is_digit_def)
  have e: "digits_val ''12'' = 12"
    by (simp add: digits_val_def digit_val_def)
  note t1 = GetVersion_resolves [of "''1.2.3.4''" "''12a''"]
  note t2 = GetVersion_resolves [of "''1.2''" "''-12''"]
  have g1: "GetVersion ''1.2.3.4'' = Inr (SemVer 1 2 3)"
    using t1 a c by simp
  have g2: "GetVersion ''1.2'' = Inl (IndexOutOfRange 2 2)"
    using t2 b by simp
  have g3: "toInt ''12a'' = 0"
    using t1 d e by (simp add: maxUint64_def)
  have g4: "toInt ''-12'' = - 12"
    using t2 d e by (simp add: signed_value_def maxInt_def minInt_def)
  show ?thesis
    using a b d g1 g2 g3 g4 by simp
qed

section \<open>The archive suffix\<close>

text \<open>
  C9. The archive suffix is a fixed mapping of the operating system:
  \<^verbatim>\<open>windows\<close> gives \<^verbatim>\<open>-base-win32-x64.zip\<close>, \<^verbatim>\<open>darwin\<close> gives
  \<^verbatim>\<open>-base-darwin-x64.tar.bz2\<close>, every other system gives \<^verbatim>\<open>-base-linux-x64.zip\<close>.
  The version plays no part: the function does not take it, and the URL of every version
  ends with the suffix of the system.
\<close>

theorem GetDistOSSuffix_mapping:
  "GetDistOSSuffix ''windows'' = ''-base-win32-x64.zip'' \<and>
   GetDistOSSuffix ''darwin'' = ''-base-darwin-x64.tar.bz2'' \<and>
   (goos \<noteq> ''windows'' \<and> goos \<noteq> ''darwin'' \<longrightarrow> GetDistOSSuffix goos = ''-base-linux-x64.zip'') \<and>
   HasSuffix (GetDistLocation p version) (GetDistOSSuffix (GOOS p))"
proof -
  have "HasSuffix (GetDistLocation p version) (GetDistOSSuffix (GOOS p))"
    unfolding GetDistLocation_def Let_def
    by (metis HasSuffix_append append.assoc)
  then show ?thesis
    by (simp add: GetDistOSSuffix_def)
qed

theorem GetDistOSSuffix_mapping_witness:
  "''freebsd'' \<noteq> ''windows'' \<and> ''freebsd'' \<noteq> ''darwin'' \<and>
   GetDistOSSuffix ''freebsd'' = ''-base-linux-x64.zip''"
  using GetDistOSSuffix_mapping [of "''freebsd''"] by simp

section \<open>The distribution URL\<close>

text \<open>
  C6, as the specification has it: exactly one \<^verbatim>\<open>/\<close> stands between host and file
  name, whether or not the override ends in \<^verbatim>\<open>/\<close>. With \<^verbatim>\<open>KUI_DIST=http://h//\<close>
  the URL has two.
\<close>

theorem GetDistLocation_double_slash_counterexample:
  "GetDistLocation (p_override ''http://h//'') ''dev'' = ''http://h//Kui-base-linux-x64.zip'' \<and>
   separating_slashes (GetDistLocation (p_override ''http://h//'') ''dev'')
     (''Kui'' @ GetDistOSSuffix (GOOS (p_override ''http://h//''))) = 2"
  by (simp add: url_defs)

text \<open>
  C6, amended. For every version and every value of \<^verbatim>\<open>KUI_DIST\<close>, set or not: the
  URL is the host (the override, when set, in place of the default host), with a
  \<^verbatim>\<open>/\<close> appended unless the host ends in one already, followed by \<^verbatim>\<open>Kui\<close> and the
  suffix of the system. So the URL always ends with \<^verbatim>\<open>Kui<suffix>\<close>, and the number of
  \<^verbatim>\<open>/\<close> before the file name is one when the host ends in at most one \<^verbatim>\<open>/\<close>, and
  otherwise the number the host ends in: none is taken away.
\<close>

theorem GetDistLocation_shape:
  "GetDistLocation p version =
     (if HasSuffix (dist_host p version) ''/'' then dist_host p version else dist_host p version @ ''/'')
       @ ''Kui'' @ GetDistOSSuffix (GOOS p) \<and>
   HasSuffix (GetDistLocation p version) (''Kui'' @ GetDistOSSuffix (GOOS p)) \<and>
   separating_slashes (GetDistLocation p version) (''Kui'' @ GetDistOSSuffix (GOOS p))
     = max 1 (trailing_slashes (dist_host p version))"
proof -
  let ?host = "dist_host p version"
  let ?file = "''Kui'' @ GetDistOSSuffix (GOOS p)"
  let ?h = "if HasSuffix ?host ''/'' then ?host else ?host @ ''/''"
  have url: "GetDistLocation p version = ?h @ ?file"
    by (simp add: GetDistLocation_def dist_host_def Let_def split: option.splits)
  have suf: "HasSuffix (GetDistLocation p version) ?file"
    unfolding url by (rule HasSuffix_append)
  have "separating_slashes (?h @ ?file) ?file = trailing_slashes ?h"
    by (simp add: separating_slashes_def)
  moreover have "trailing_slashes ?h = max 1 (trailing_slashes ?host)"
    using trailing_slashes_0 [of ?host] trailing_slashes_pos [of ?host]
    by (auto simp: trailing_slashes_snoc simp del: One_nat_def)
  ultimately show ?thesis
    using url suf by simp
qed

theorem GetDistLocation_shape_witness:
  "GetDistLocation (p_override ''http://h/'') ''1.2.3'' = ''http://h/Kui-base-linux-x64.zip'' \<and>
   GetDistLocation (p_override ''http://h'') ''1.2.3'' = ''http://h/Kui-base-linux-x64.zip'' \<and>
   separating_slashes (GetDistLocation (p_override ''http://h/'') ''1.2.3'')
     (''Kui'' @ GetDistOSSuffix (GOOS (p_override ''http://h/''))) = 1"
proof -
  note t1 = GetDistLocation_shape [of "p_override ''http://h/''" "''1.2.3''"]
  note t2 = GetDistLocation_shape [of "p_override ''http://h''" "''1.2.3''"]
  have a: "dist_host (p_override ''http://h/'') ''1.2.3'' = ''http://h/''"
    and b: "dist_host (p_override ''http://h'') ''1.2.3'' = ''http://h''"
    by (simp_all add: dist_host_def p_override_def LookupEnv_def)
  have c: "GetDistOSSuffix (GOOS (p_override h)) = ''-base-linux-x64.zip''" for h
    by (simp add: p_override_def GetDistOSSuffix_def)
  have d: "trailing_slashes ''http://h/'' = 1"
    by (simp add: trailing_slashes_def)
  have u1: "GetDistLocation (p_override ''http://h/'') ''1.2.3'' = ''http://h/Kui-base-linux-x64.zip''"
    using conjunct1 [OF t1] by (simp add: a c HasSuffix_def)
  have u2: "GetDistLocation (p_override ''http://h'') ''1.2.3'' = ''http://h/Kui-base-linux-x64.zip''"
    using conjunct1 [OF t2] by (simp add: b c HasSuffix_def)
  have u3: "separating_slashes (GetDistLocation (p_override ''http://h/'') ''1.2.3'')
     (''Kui'' @ GetDistOSSuffix (GOOS (p_override ''http://h/''))) = 1"
    using conjunct2 [OF conjunct2 [OF t1]] by (simp add: a d)
  show ?thesis
    using u1 u2 u3 by blast
qed

section \<open>Properties of the download\<close>




section \<open>Properties of the cache\<close>

subsection \<open>What the parts of the call do\<close>



lemma fetchDist_success:
  assumes "fetchDist w goos url binDir targetDir successFile executable basenameOfSelf fs = (None, fs', tr)"
  shows "fs' successFile \<noteq> None"
  using assms
  by (auto simp: fetchDist_def DownloadFile_def handleError_def os_OpenFile_def Let_def
      split: prod.splits option.splits sum.splits if_splits)

lemma fetchDist_once:
  assumes "fetchDist w goos url binDir targetDir successFile executable basenameOfSelf fs = (err, fs', tr)"
  shows "length (filter is_network tr) \<le> 1 \<and> length (filter is_extraction tr) \<le> 1"
  using assms
  by (auto simp: fetchDist_def DownloadFile_def handleError_def Let_def
      split: prod.splits option.splits sum.splits)

lemma fetchDist_paths:
  assumes "fetchDist w goos url binDir targetDir successFile executable basenameOfSelf fs = (err, fs', tr)"
  shows "E_Create name res \<in> set tr \<Longrightarrow> name = filepath_Join goos [targetDir, ''downloaded.zip'']"
    and "E_Copy name body res \<in> set tr \<Longrightarrow> name = filepath_Join goos [targetDir, ''downloaded.zip'']"
    and "E_Unarchive fmt src dst res \<in> set tr \<Longrightarrow>
           src = filepath_Join goos [targetDir, ''downloaded.zip''] \<and>
           dst = filepath_Join goos [targetDir, ''extract''] \<and>
           fmt = (if HasSuffix url ''.tar.bz2'' then TarBz2 else Zip)"
  using assms
  by (auto simp: fetchDist_def DownloadFile_def handleError_def Let_def
      split: prod.splits option.splits sum.splits)



lemma os_Stat_None: "os_Stat name fs = None \<longleftrightarrow> fs name \<noteq> None"
  by (simp add: os_Stat_def split: option.splits)



text \<open>When version, home directory and executable resolve, the call is: the cleanup of
  a forced call, the readiness check, and then either the fetch or the cache hit.
  Otherwise it ends before it touches anything.\<close>

lemma DD_resolves:
  assumes "resolves p"
  shows "DownloadDistIfNecessary p w force fs =
     (case (if force then forceReset w (GOOS p) (successFile_of p) (extractedDir_of p) fs else (fs, [])) of
        (fs2, tr2) \<Rightarrow>
          (case os_Stat (successFile_of p) fs2 of
             Some serr \<Rightarrow>
               (case fetchDist w (GOOS p) (GetDistLocation p (version_of p)) (binDir_of p) (targetDir_of p)
                       (successFile_of p) (projr (Executable p))
                       (filepath_Base (GOOS p) (projr (Executable p))) fs2 of
                  (err, fs3, tr3) \<Rightarrow>
                    ((case err of Some e \<Rightarrow> Failed e | None \<Rightarrow> Returned (command_of p)), fs3,
                     log_head p force @ tr2 @ [E_Stat (successFile_of p) (Some serr)] @ tr3))
           | None \<Rightarrow>
               (Returned (command_of p), fs2,
                log_head p force @ tr2 @ [E_Stat (successFile_of p) None, Debug ''Using cached download''])))"
proof -
  from assms obtain v home exe where
    v: "GetVersion (Plugin_version p) = Inr v" and h: "UserHomeDir p = Inr home"
    and e: "Executable p = Inr exe"
    unfolding resolves_def by (metis sum.collapse(2))
  show ?thesis
    by (simp add: DownloadDistIfNecessary_def GetMetadata_def PluginDirectory_def v h e layout_defs
        log_head_def Let_def split: prod.splits option.splits)
qed

lemma DD_not_resolves:
  assumes "\<not> resolves p" and "DownloadDistIfNecessary p w force fs = (r, fs', tr)"
  shows "\<not> is_Returned r \<and> fs' = fs \<and> \<not> list_ex is_write tr \<and> \<not> list_ex is_network tr \<and> \<not> list_ex is_stat tr"
  using assms
  by (auto simp: resolves_def DownloadDistIfNecessary_def GetMetadata_def PluginDirectory_def
      handleError_def Let_def split: sum.splits prod.splits)

lemma DD_cache_hit:
  assumes "resolves p" and "fs (successFile_of p) \<noteq> None"
  shows "DownloadDistIfNecessary p w False fs =
           (Returned (command_of p), fs,
            log_head p False @ [E_Stat (successFile_of p) None, Debug ''Using cached download''])"
  using assms DD_resolves [of p w False fs] by (simp add: os_Stat_def split: option.splits)

lemma DD_Returned:
  assumes "DownloadDistIfNecessary p w False fs = (Returned cmd, fs1, tr1)"
  shows "resolves p \<and> cmd = command_of p \<and> fs1 (successFile_of p) \<noteq> None \<and>
         length (filter is_network tr1) \<le> 1 \<and> length (filter is_extraction tr1) \<le> 1"
proof -
  have res: "resolves p"
    using DD_not_resolves [OF _ assms] by auto
  show ?thesis
  proof (cases "os_Stat (successFile_of p) fs")
    case None
    then have "fs (successFile_of p) \<noteq> None" by (simp add: os_Stat_None)
    with DD_cache_hit [of p fs w] assms res show ?thesis
      by (auto simp: log_head_def)
  next
    case (Some serr)
    obtain err fs3 tr3 where
      fd: "fetchDist w (GOOS p) (GetDistLocation p (version_of p)) (binDir_of p) (targetDir_of p)
             (successFile_of p) (projr (Executable p)) (filepath_Base (GOOS p) (projr (Executable p))) fs
           = (err, fs3, tr3)"
      by (metis prod_cases3)
    from DD_resolves [OF res, of w False fs] assms Some fd
    have r: "Returned cmd = (case err of Some e \<Rightarrow> Failed e | None \<Rightarrow> Returned (command_of p))"
      and f: "fs1 = fs3"
      and t: "tr1 = log_head p False @ [E_Stat (successFile_of p) (Some serr)] @ tr3"
      by simp_all
    from r have e: "err = None" and c: "cmd = command_of p"
      by (cases err; simp)+
    from fetchDist_success [OF fd [unfolded e]] fetchDist_once [OF fd] res c f t
    show ?thesis by (simp add: log_head_def)
  qed
qed

lemma downloadedFile_name: "\<exists>y. downloadedFile_of p = y @ ''downloaded.zip''"
  unfolding downloadedFile_of_def
  by (rule filepath_Join_last_element) (simp_all add: IsPathSeparator_def)

lemma url_ending: "HasSuffix (GetDistLocation p v) ''.tar.bz2'' \<longleftrightarrow> GOOS p = ''darwin''"
proof -
  obtain h where "GetDistLocation p v = h @ GetDistOSSuffix (GOOS p)"
    unfolding GetDistLocation_def Let_def by (metis append.assoc)
  then show ?thesis
    by (auto simp: HasSuffix_def GetDistOSSuffix_def)
qed

lemma DD_archive_events:
  assumes run: "DownloadDistIfNecessary p w force fs = (r, fs', tr)"
    and e: "e \<in> set tr" and k: "is_extraction e \<or> (\<exists>name res. e = E_Create name res) \<or> (\<exists>name body res. e = E_Copy name body res)"
  shows "resolves p \<and> (\<exists>err fs2 fs3 tr3.
           fetchDist w (GOOS p) (GetDistLocation p (version_of p)) (binDir_of p) (targetDir_of p)
             (successFile_of p) (projr (Executable p)) (filepath_Base (GOOS p) (projr (Executable p))) fs2
           = (err, fs3, tr3) \<and> e \<in> set tr3)"
proof -
  have wr: "is_write e" using k by (cases e) auto
  have res: "resolves p"
    using DD_not_resolves [OF _ run] e wr by (auto simp: list_ex_iff)
  obtain fs2 tr2 where
    fr: "(if force then forceReset w (GOOS p) (successFile_of p) (extractedDir_of p) fs else (fs, [])) = (fs2, tr2)"
    by (cases "if force then forceReset w (GOOS p) (successFile_of p) (extractedDir_of p) fs else (fs, [])")
  have n2: "e \<notin> set tr2"
    using fr k by (auto simp: forceReset_def split: if_splits prod.splits option.splits)
  have n1: "e \<notin> set (log_head p force)"
    using k by (auto simp: log_head_def)
  obtain err fs3 tr3 where
      fd: "fetchDist w (GOOS p) (GetDistLocation p (version_of p)) (binDir_of p) (targetDir_of p)
             (successFile_of p) (projr (Executable p)) (filepath_Base (GOOS p) (projr (Executable p))) fs2
           = (err, fs3, tr3)"
    by (metis prod_cases3)
  have "e \<in> set tr3"
    using DD_resolves [OF res, of w force fs] fr run fd e n1 n2 k
    by (cases "os_Stat (successFile_of p) fs2") auto
  with res fd show ?thesis by blast
qed

subsection \<open>The sample inputs, evaluated\<close>

lemma unix_paths:
  assumes "goos \<noteq> ''windows''"
  shows "filepath_Join goos [''/home/u'', ''.kask''] = ''/home/u/.kask''"
  "filepath_Join goos [''/home/u/.kask'', ''bin''] = ''/home/u/.kask/bin''"
  "filepath_Join goos [''/home/u/.kask'', ''/cache-dev''] = ''/home/u/.kask/cache-dev''"
  "filepath_Join goos [''/home/u/.kask/cache-dev'', ''success''] = ''/home/u/.kask/cache-dev/success''"
  "filepath_Join goos [''/home/u/.kask/cache-dev'', ''extract''] = ''/home/u/.kask/cache-dev/extract''"
  "filepath_Join goos [''/home/u/.kask/cache-dev'', ''downloaded.zip''] = ''/home/u/.kask/cache-dev/downloaded.zip''"
  "filepath_Join goos [''/home/u/.kask/bin'', ''kubectl-kask''] = ''/home/u/.kask/bin/kubectl-kask''"
  "filepath_Join goos [''/home/u/.kask/cache-dev/extract'', ''Kui-base-linux-x64/Kui'']
     = ''/home/u/.kask/cache-dev/extract/Kui-base-linux-x64/Kui''"
  "filepath_Join goos [''/home/u/.kask/cache-dev/extract'', ''Kui-base-darwin-x64/Kui.app/Contents/MacOS/Kui'']
     = ''/home/u/.kask/cache-dev/extract/Kui-base-darwin-x64/Kui.app/Contents/MacOS/Kui''"
  "filepath_Base goos ''/usr/local/bin/kask'' = ''kask''"
  using assms by (simp_all add: path_defs)

lemmas linux_paths = unix_paths [of "''linux''", simplified]

lemmas darwin_paths = unix_paths [of "''darwin''", simplified]

lemma sample_url: "GetDistLocation (p_override ''http://h'') ''dev'' = ''http://h/Kui-base-linux-x64.zip''"
  by (simp add: url_defs)

lemma sample_fields:
  "GOOS (p_override h) = ''linux''" "UserHomeDir (p_override h) = Inr ''/home/u''"
  "Executable (p_override h) = Inr ''/usr/local/bin/kask''" "Plugin_version (p_override h) = ''dev''"
  "Environ (p_override h) = [''KUI_DIST='' @ h]"
  by (simp_all add: p_override_def PLUGIN_VERSION_def Environ_def)

lemma darwin_fields:
  "GOOS p_darwin = ''darwin''" "UserHomeDir p_darwin = Inr ''/home/u''"
  "Executable p_darwin = Inr ''/usr/local/bin/kask''" "Plugin_version p_darwin = ''dev''"
  "Environ p_darwin = [''KUI_DIST=http://h'']"
  "GetDistLocation p_darwin ''dev'' = ''http://h/Kui-base-darwin-x64.tar.bz2''"
  by (simp_all add: p_darwin_def Environ_def url_defs)

lemma sample_metadata: "GetMetadata ''dev'' = Inr \<lparr>Name = ''kask'', Version = DevVer,
               Commands = [\<lparr>Command.Name = ''kask'', Alias = ''kask'',
                            Description = ''Kask for Krew'', Usage = ''krew kask install ...''\<rparr>]\<rparr>"
  by (simp add: GetMetadata_def GetVersion_def)


lemmas run_eval = linux_paths darwin_paths sample_url sample_fields darwin_fields sample_metadata
  PluginDirectory_def GetRootCommand_def exec_Command_def handleError_def DownloadDistIfNecessary_def
  fetchDist_def forceReset_def DownloadFile_def os_defs world_defs HasSuffix_def HasPrefix_def Let_def
  fs_ready_def fs_crashed_def sample_cmd_def

subsection \<open>The success marker\<close>



subsection \<open>The second call\<close>

text \<open>
  C2. When a call with \<^verbatim>\<open>force=false\<close> has returned the command, the success file
  exists, and a call with \<^verbatim>\<open>force=false\<close> that follows it, in any world, returns the
  same command and leaves the file system as it is; it makes no request to the network,
  unpacks nothing and makes no call that changes the file system. The two calls together
  make at most one request and unpack at most once.
\<close>

theorem second_call_is_cache_hit:
  assumes first: "DownloadDistIfNecessary p w False fs = (Returned cmd, fs1, tr1)"
    and second: "DownloadDistIfNecessary p w' False fs1 = (r2, fs2, tr2)"
  shows "fs1 (successFile_of p) \<noteq> None \<and>
         r2 = Returned cmd \<and> fs2 = fs1 \<and>
         tr2 = log_head p False @ [E_Stat (successFile_of p) None, Debug ''Using cached download''] \<and>
         \<not> list_ex is_network tr2 \<and> \<not> list_ex is_extraction tr2 \<and> \<not> list_ex is_write tr2 \<and>
         length (filter is_network (tr1 @ tr2)) \<le> 1 \<and>
         length (filter is_extraction (tr1 @ tr2)) \<le> 1"
proof -
  note f = DD_Returned [OF first]
  from f have res: "resolves p" and m: "fs1 (successFile_of p) \<noteq> None" by simp_all
  from DD_cache_hit [of p fs1 w'] res m second
  have s: "r2 = Returned (command_of p)" "fs2 = fs1"
    "tr2 = log_head p False @ [E_Stat (successFile_of p) None, Debug ''Using cached download'']"
    by simp_all
  show ?thesis
    using f s by (simp add: log_head_def)
qed

theorem second_call_is_cache_hit_witness:
  "fst (DownloadDistIfNecessary (p_override ''http://h'')
          (sample_world (answer 200 ''PK'') no_refusal None) False Map.empty) = Returned sample_cmd \<and>
   fst (DownloadDistIfNecessary (p_override ''http://h'')
          (sample_world (\<lambda>url. Inl (ErrOther ''no route to host'')) no_refusal None) False
          (fst (snd (DownloadDistIfNecessary (p_override ''http://h'')
             (sample_world (answer 200 ''PK'') no_refusal None) False Map.empty)))) = Returned sample_cmd \<and>
   \<not> list_ex is_write (snd (snd (DownloadDistIfNecessary (p_override ''http://h'')
          (sample_world (\<lambda>url. Inl (ErrOther ''no route to host'')) no_refusal None) False
          (fst (snd (DownloadDistIfNecessary (p_override ''http://h'')
             (sample_world (answer 200 ''PK'') no_refusal None) False Map.empty))))))"
proof -
  let ?p = "p_override ''http://h''" and ?w = "sample_world (answer 200 ''PK'') no_refusal None"
  let ?w' = "sample_world (\<lambda>url. Inl (ErrOther ''no route to host'')) no_refusal None"
  let ?run = "DownloadDistIfNecessary ?p ?w False Map.empty"
  let ?again = "DownloadDistIfNecessary ?p ?w' False (fst (snd ?run))"
  have r: "fst ?run = Returned sample_cmd"
    by (simp add: run_eval)
  then have first: "?run = (Returned sample_cmd, fst (snd ?run), snd (snd ?run))"
    by (metis prod.collapse)
  have second: "?again = (fst ?again, fst (snd ?again), snd (snd ?again))" by simp
  note t = second_call_is_cache_hit [OF first second]
  from t have "fst ?again = Returned sample_cmd"
    and "\<not> list_ex is_write (snd (snd ?again))"
    by blast+
  with r show ?thesis
    by blast
qed

subsection \<open>The forced call\<close>




subsection \<open>The path of the archive\<close>

text \<open>
  C7, as stated: the archive is downloaded to a file whose ending is that of the archive
  format of the system, \<^verbatim>\<open>.tar.bz2\<close> on darwin. On darwin the URL ends in
  \<^verbatim>\<open>.tar.bz2\<close> and the decoder for that format is used, but the file is
  \<^verbatim>\<open>downloaded.zip\<close>.
\<close>

theorem archive_extension_counterexample:
  "GOOS p_darwin = ''darwin'' \<and>
   snd (snd (DownloadDistIfNecessary p_darwin (sample_world (answer 200 ''BZ'') no_refusal None) False Map.empty))
     = [Debug ''force refetch? false'', Debug ''targetDir /home/u/.kask/cache-dev'',
        E_Stat ''/home/u/.kask/cache-dev/success'' (Some ErrNotExist),
        E_MkdirAll ''/home/u/.kask/cache-dev/extract'' None,
        E_Get ''http://h/Kui-base-darwin-x64.tar.bz2'' None,
        E_Create ''/home/u/.kask/cache-dev/downloaded.zip'' None,
        E_Copy ''/home/u/.kask/cache-dev/downloaded.zip'' ''BZ'' None,
        E_Remove ''/home/u/.kask/bin/kubectl-kask'' (Some ErrNotExist),
        E_Symlink ''/usr/local/bin/kask'' ''/home/u/.kask/bin/kubectl-kask'' None,
        Debug ''Symlinked ourselves to /home/u/.kask/bin/kubectl-kask'',
        Debug ''Downloaded kui-base /home/u/.kask/cache-dev/downloaded.zip'',
        Debug ''Extracting kui-base /home/u/.kask/cache-dev/extract'',
        E_Unarchive TarBz2 ''/home/u/.kask/cache-dev/downloaded.zip''
          ''/home/u/.kask/cache-dev/extract'' None,
        Debug ''Extracted kui-base /home/u/.kask/cache-dev/extract'',
        E_OpenFile ''/home/u/.kask/cache-dev/success'' None]"
  by (simp add: run_eval)

text \<open>
  C7, amended. On every system and for every version the archive is downloaded to
  \<^verbatim>\<open>downloaded.zip\<close> in the directory of the cache: this is the file that is created
  and written, and the file that is unpacked. Its name ends in \<^verbatim>\<open>.zip\<close>, never in
  \<^verbatim>\<open>.tar.bz2\<close>, while the URL ends in \<^verbatim>\<open>.tar.bz2\<close> exactly on darwin; the decoder
  is chosen by the ending of the URL, so it is the one for \<^verbatim>\<open>.tar.bz2\<close> exactly on
  darwin.
\<close>

theorem archive_always_downloaded_zip:
  assumes run: "DownloadDistIfNecessary p w force fs = (r, fs', tr)"
  shows "(E_Create name res \<in> set tr \<longrightarrow> name = downloadedFile_of p) \<and>
         (E_Copy name body res \<in> set tr \<longrightarrow> name = downloadedFile_of p) \<and>
         (E_Unarchive fmt src dst res \<in> set tr \<longrightarrow>
            src = downloadedFile_of p \<and> dst = extractedDir_of p \<and> (fmt = TarBz2 \<longleftrightarrow> GOOS p = ''darwin'')) \<and>
         downloadedFile_of p = filepath_Join (GOOS p) [targetDir_of p, ''downloaded.zip''] \<and>
         HasSuffix (downloadedFile_of p) ''downloaded.zip'' \<and>
         HasSuffix (downloadedFile_of p) ''.zip'' \<and>
         \<not> HasSuffix (downloadedFile_of p) ''.tar.bz2'' \<and>
         (HasSuffix (GetDistLocation p v) ''.tar.bz2'' \<longleftrightarrow> GOOS p = ''darwin'')"
proof -
  have c1: "E_Create name res \<in> set tr \<longrightarrow> name = downloadedFile_of p"
    using DD_archive_events [OF run, of "E_Create name res"] fetchDist_paths(1)
    by (fastforce simp: downloadedFile_of_def)
  have c2: "E_Copy name body res \<in> set tr \<longrightarrow> name = downloadedFile_of p"
    using DD_archive_events [OF run, of "E_Copy name body res"] fetchDist_paths(2)
    by (fastforce simp: downloadedFile_of_def)
  have c3: "E_Unarchive fmt src dst res \<in> set tr \<longrightarrow>
            src = downloadedFile_of p \<and> dst = extractedDir_of p \<and> (fmt = TarBz2 \<longleftrightarrow> GOOS p = ''darwin'')"
  proof
    assume "E_Unarchive fmt src dst res \<in> set tr"
    from DD_archive_events [OF run this] obtain err fs2 fs3 tr3 where
      fd: "fetchDist w (GOOS p) (GetDistLocation p (version_of p)) (binDir_of p) (targetDir_of p)
             (successFile_of p) (projr (Executable p)) (filepath_Base (GOOS p) (projr (Executable p))) fs2
           = (err, fs3, tr3)" and i: "E_Unarchive fmt src dst res \<in> set tr3"
      by auto
    from fetchDist_paths(3) [OF fd i] url_ending [of p "version_of p"]
    show "src = downloadedFile_of p \<and> dst = extractedDir_of p \<and> (fmt = TarBz2 \<longleftrightarrow> GOOS p = ''darwin'')"
      by (auto simp: downloadedFile_of_def extractedDir_of_def)
  qed
  obtain y where y: "downloadedFile_of p = y @ ''downloaded.zip''"
    using downloadedFile_name by blast
  have c5: "HasSuffix (downloadedFile_of p) ''downloaded.zip''"
    and c6: "HasSuffix (downloadedFile_of p) ''.zip''"
    and c7: "\<not> HasSuffix (downloadedFile_of p) ''.tar.bz2''"
    unfolding y by (simp_all add: HasSuffix_def)
  show ?thesis
    using c1 c2 c3 c5 c6 c7 url_ending [of p v] by (simp add: downloadedFile_of_def)
qed

theorem archive_always_downloaded_zip_witness:
  "E_Create ''/home/u/.kask/cache-dev/downloaded.zip'' None \<in>
     set (snd (snd (DownloadDistIfNecessary (p_override ''http://h'')
                      (sample_world (answer 200 ''PK'') no_refusal None) False Map.empty))) \<and>
   downloadedFile_of (p_override ''http://h'') = ''/home/u/.kask/cache-dev/downloaded.zip''"
proof -
  let ?p = "p_override ''http://h''" and ?w = "sample_world (answer 200 ''PK'') no_refusal None"
  let ?run = "DownloadDistIfNecessary ?p ?w False Map.empty"
  have run: "?run = (fst ?run, fst (snd ?run), snd (snd ?run))" by simp
  have e: "E_Create ''/home/u/.kask/cache-dev/downloaded.zip'' None \<in> set (snd (snd ?run))"
    by (simp add: run_eval)
  from archive_always_downloaded_zip [OF run] e
  have "''/home/u/.kask/cache-dev/downloaded.zip'' = downloadedFile_of ?p" by blast
  with e show ?thesis by simp
qed

section \<open>Properties of the launch\<close>

subsection \<open>The command context\<close>

text \<open>
  C8. The command context comes from the name the launcher was invoked under, the last
  element of \<^verbatim>\<open>args[0]\<close> (a name without \<^verbatim>\<open>/\<close> is its own last element). If the
  name starts with \<^verbatim>\<open>kubectl-\<close>, the context is the name without this prefix,
  otherwise it is the default \<^verbatim>\<open>plugin\<close>; and if what is left after the prefix is
  \<^verbatim>\<open>kask\<close>, the context is the default as well. So \<^verbatim>\<open>kubectl-foo\<close> gives \<^verbatim>\<open>foo\<close>,
  and \<^verbatim>\<open>kubectl-kask\<close> and \<^verbatim>\<open>myplugin\<close> give the default.
\<close>

theorem kuiCommandContext_derivation:
  "kuiCommandContext arg0 =
     (if HasPrefix (path_Base arg0) ''kubectl-''
      then (if drop (length ''kubectl-'') (path_Base arg0) = ''kask'' then ''plugin''
            else drop (length ''kubectl-'') (path_Base arg0))
      else ''plugin'') \<and>
   (name \<noteq> [] \<and> CHR ''/'' \<notin> set name \<longrightarrow> path_Base name = name) \<and>
   kuiCommandContext ''kubectl-foo'' = ''foo'' \<and>
   kuiCommandContext ''kubectl-kask'' = ''plugin'' \<and>
   kuiCommandContext ''myplugin'' = ''plugin''"
proof -
  have gen: "kuiCommandContext arg0 =
     (if HasPrefix (path_Base arg0) ''kubectl-''
      then (if drop (length ''kubectl-'') (path_Base arg0) = ''kask'' then ''plugin''
            else drop (length ''kubectl-'') (path_Base arg0))
      else ''plugin'')"
    by (simp add: kuiCommandContext_def MatchString_def ReplaceAllString_def
        defaultCommandContext_def Let_def)
  have ex: "kuiCommandContext ''kubectl-foo'' = ''foo''" "kuiCommandContext ''kubectl-kask'' = ''plugin''"
    "kuiCommandContext ''myplugin'' = ''plugin''"
    by (simp_all add: ctx_defs)
  show ?thesis using gen ex path_Base_plain by blast
qed

theorem kuiCommandContext_derivation_witness:
  "''kubectl-get'' \<noteq> [] \<and> CHR ''/'' \<notin> set ''kubectl-get'' \<and> path_Base ''kubectl-get'' = ''kubectl-get'' \<and>
   kuiCommandContext ''/usr/local/bin/kubectl-get'' = ''get''"
proof -
  note t = kuiCommandContext_derivation [of "''/usr/local/bin/kubectl-get''" "''kubectl-get''"]
  have b: "path_Base ''/usr/local/bin/kubectl-get'' = ''kubectl-get''"
    by (simp add: path_Base_def base_of_def)
  have "kuiCommandContext ''/usr/local/bin/kubectl-get'' = ''get''"
    using conjunct1 [OF t] by (simp add: b HasPrefix_def)
  moreover have "path_Base ''kubectl-get'' = ''kubectl-get''"
    using conjunct1 [OF conjunct2 [OF t]] by simp
  ultimately show ?thesis by simp
qed

subsection \<open>The execution style\<close>

lemma execStyle_Cons:
  "execStyle (arg # rest) =
     Inr (if arg \<in> set headless_commands \<and> (rest = [] \<or> hd rest \<noteq> ''--ui'')
          then (ExecWithRun, [''KUI_HEADLESS=true''], [Debug ''using headless mode''])
          else (ExecWithStart, [], []))"
  by (cases rest) (auto simp: execStyle_def index_def headless_commands_def)

lemma Run_Launched:
  assumes "Run p w args fs = (Launched cmd style, fs', tr)"
  shows "\<exists>root tr0 extra logged.
           DownloadDistIfNecessary p w (args ! 1 = ''refresh'') fs = (Returned root, fs', tr0) \<and>
           execStyle (if args ! 1 = ''refresh'' then [''version''] else drop 1 args)
             = Inr (style, extra, logged) \<and>
           Env cmd = Env root @ [''KUI_COMMAND_CONTEXT='' @ kuiCommandContext (args ! 0)] @ extra \<and>
           Args cmd = Args root @ (if args ! 1 = ''refresh'' then [''version''] else drop 1 args)"
  using assms
  by (auto simp: Run_def index_def Let_def split: if_splits sum.splits prod.splits outcome.splits)

lemma sample_run:
  "fst (Run (p_override ''http://h'') (sample_world (answer 200 ''PK'') no_refusal None)
          [''/usr/bin/kubectl-foo'', ''install'', ''pkg''] fs_ready)
     = Launched (sample_cmd\<lparr>Env := Env sample_cmd @ [''KUI_COMMAND_CONTEXT=foo'', ''KUI_HEADLESS=true''],
                            Args := Args sample_cmd @ [''install'', ''pkg'']\<rparr>) ExecWithRun"
  by (simp add: Run_def index_def run_eval execStyle_def ctx_defs)

lemma later_ui_run:
  "fst (Run (p_override ''http://h'') (sample_world (answer 200 ''PK'') no_refusal None)
          [''/usr/bin/kubectl-foo'', ''install'', ''pkg'', ''--ui''] fs_ready)
     = Launched (sample_cmd\<lparr>Env := Env sample_cmd @ [''KUI_COMMAND_CONTEXT=foo'', ''KUI_HEADLESS=true''],
                            Args := Args sample_cmd @ [''install'', ''pkg'', ''--ui'']\<rparr>) ExecWithRun"
  by (simp add: Run_def index_def run_eval execStyle_def ctx_defs)

text \<open>
  C5, as stated: the style is \<^verbatim>\<open>ExecWithRun\<close>, with \<^verbatim>\<open>KUI_HEADLESS=true\<close>, exactly
  when the first sub-argument is one of the five sub-commands and no \<^verbatim>\<open>--ui\<close> follows
  it. In \<^verbatim>\<open>install pkg --ui\<close> a \<^verbatim>\<open>--ui\<close> follows the sub-command, and the style
  is \<^verbatim>\<open>ExecWithRun\<close> all the same, with \<^verbatim>\<open>KUI_HEADLESS=true\<close> in the environment
  of the child command: line 156 compares only \<^verbatim>\<open>kaskArgs[1]\<close>.
\<close>

theorem execStyle_later_ui_counterexample:
  "''--ui'' \<in> set [''pkg'', ''--ui''] \<and>
   execStyle [''install'', ''pkg'', ''--ui'']
     = Inr (ExecWithRun, [''KUI_HEADLESS=true''], [Debug ''using headless mode'']) \<and>
   fst (Run (p_override ''http://h'') (sample_world (answer 200 ''PK'') no_refusal None)
          [''/usr/bin/kubectl-foo'', ''install'', ''pkg'', ''--ui''] fs_ready)
     = Launched (sample_cmd\<lparr>Env := Env sample_cmd @ [''KUI_COMMAND_CONTEXT=foo'', ''KUI_HEADLESS=true''],
                            Args := Args sample_cmd @ [''install'', ''pkg'', ''--ui'']\<rparr>) ExecWithRun"
  using later_ui_run by (simp add: execStyle_def index_def)

text \<open>
  C5, amended. For every list of sub-arguments with a first element: the style is
  \<^verbatim>\<open>ExecWithRun\<close>, and \<^verbatim>\<open>KUI_HEADLESS=true\<close> is added to the environment, exactly
  when the first sub-argument is one of \<^verbatim>\<open>install\<close>, \<^verbatim>\<open>uninstall\<close>, \<^verbatim>\<open>list\<close>,
  \<^verbatim>\<open>version\<close>, \<^verbatim>\<open>commands\<close> and the sub-argument right after it, if there is one,
  is not \<^verbatim>\<open>--ui\<close>; in every other case the style is \<^verbatim>\<open>ExecWithStart\<close> and nothing
  is added. What stands behind the second sub-argument plays no part, so a \<^verbatim>\<open>--ui\<close>
  further to the right does not change the style. A run of the launcher that starts the
  child command starts it in the style chosen for its sub-arguments (\<^verbatim>\<open>version\<close> after
  a refresh), with the environment of the root command, the command context and what the
  choice of style has added. So \<^verbatim>\<open>install\<close>, \<^verbatim>\<open>list\<close> and \<^verbatim>\<open>version\<close> alone
  run blocking, and \<^verbatim>\<open>install --ui\<close> and \<^verbatim>\<open>get pods\<close> are started detached.
\<close>

theorem execStyle_selection:
  "execStyle (arg # rest) =
     Inr (if arg \<in> set headless_commands \<and> (rest = [] \<or> hd rest \<noteq> ''--ui'')
          then (ExecWithRun, [''KUI_HEADLESS=true''], [Debug ''using headless mode''])
          else (ExecWithStart, [], [])) \<and>
   execStyle (arg # second # others) = execStyle [arg, second] \<and>
   (Run p w args fs = (Launched cmd style, fs', tr) \<longrightarrow>
      (\<exists>root tr0 extra logged.
           DownloadDistIfNecessary p w (args ! 1 = ''refresh'') fs = (Returned root, fs', tr0) \<and>
           execStyle (if args ! 1 = ''refresh'' then [''version''] else drop 1 args)
             = Inr (style, extra, logged) \<and>
           Env cmd = Env root @ [''KUI_COMMAND_CONTEXT='' @ kuiCommandContext (args ! 0)] @ extra \<and>
           Args cmd = Args root @ (if args ! 1 = ''refresh'' then [''version''] else drop 1 args))) \<and>
   execStyle [''install''] = Inr (ExecWithRun, [''KUI_HEADLESS=true''], [Debug ''using headless mode'']) \<and>
   execStyle [''list''] = Inr (ExecWithRun, [''KUI_HEADLESS=true''], [Debug ''using headless mode'']) \<and>
   execStyle [''version''] = Inr (ExecWithRun, [''KUI_HEADLESS=true''], [Debug ''using headless mode'']) \<and>
   execStyle [''install'', ''--ui''] = Inr (ExecWithStart, [], []) \<and>
   execStyle [''get'', ''pods''] = Inr (ExecWithStart, [], [])"
proof -
  have ex: "execStyle [''install''] = Inr (ExecWithRun, [''KUI_HEADLESS=true''], [Debug ''using headless mode''])"
    "execStyle [''list''] = Inr (ExecWithRun, [''KUI_HEADLESS=true''], [Debug ''using headless mode''])"
    "execStyle [''version''] = Inr (ExecWithRun, [''KUI_HEADLESS=true''], [Debug ''using headless mode''])"
    "execStyle [''install'', ''--ui''] = Inr (ExecWithStart, [], [])"
    "execStyle [''get'', ''pods''] = Inr (ExecWithStart, [], [])"
    by (simp_all add: execStyle_def index_def)
  have later: "execStyle (arg # second # others) = execStyle [arg, second]"
    by (simp add: execStyle_Cons)
  show ?thesis
    using execStyle_Cons [of arg rest] Run_Launched [of p w args fs cmd style fs' tr] ex later
    by blast
qed

theorem execStyle_selection_witness:
  "fst (Run (p_override ''http://h'') (sample_world (answer 200 ''PK'') no_refusal None)
          [''/usr/bin/kubectl-foo'', ''install'', ''pkg''] fs_ready)
     = Launched (sample_cmd\<lparr>Env := Env sample_cmd @ [''KUI_COMMAND_CONTEXT=foo'', ''KUI_HEADLESS=true''],
                            Args := Args sample_cmd @ [''install'', ''pkg'']\<rparr>) ExecWithRun \<and>
   (\<exists>extra logged. execStyle [''install'', ''pkg''] = Inr (ExecWithRun, extra, logged))"
proof -
  let ?p = "p_override ''http://h''" and ?w = "sample_world (answer 200 ''PK'') no_refusal None"
  let ?args = "[''/usr/bin/kubectl-foo'', ''install'', ''pkg'']"
  let ?run = "Run ?p ?w ?args fs_ready"
  let ?cmd = "sample_cmd\<lparr>Env := Env sample_cmd @ [''KUI_COMMAND_CONTEXT=foo'', ''KUI_HEADLESS=true''],
                            Args := Args sample_cmd @ [''install'', ''pkg'']\<rparr>"
  have r: "fst ?run = Launched ?cmd ExecWithRun"
    by (rule sample_run)
  then have run: "?run = (Launched ?cmd ExecWithRun, fst (snd ?run), snd (snd ?run))"
    by (metis prod.collapse)
  from execStyle_selection [of "''install''" "[''pkg'']" "''pkg''" "[]" ?p ?w ?args fs_ready ?cmd ExecWithRun] run
  obtain extra logged where
    "execStyle (if ?args ! 1 = ''refresh'' then [''version''] else drop 1 ?args)
      = Inr (ExecWithRun, extra, logged)"
    by blast
  then have "execStyle [''install'', ''pkg''] = Inr (ExecWithRun, extra, logged)" by simp
  with r show ?thesis by blast
qed

end
